theory Spec2Isabelle
  imports Main "HOL-Library.Word" "HOL-Library.Char_ord" "HOL-Library.List_Lexorder"
begin

section \<open>Errors and outcomes\<close>

text \<open>
  Every \<^verbatim>\<open>fmt.Errorf\<close> site of the release manager is one constructor; an error that
  wraps another carries it. \<open>External\<close> stands for the errors of the collaborators
  (the release feed, the downloader, the hasher, the RSA signer, the patch engine, the
  semver parser). \<open>ErrNoUpdateAvailable\<close> is the package-level sentinel that the HTTP
  handler compares against with \<^verbatim>\<open>==\<close>.
\<close>

datatype error =
    External string
  | ErrNoUpdateAvailable
  | ExpectingParams
  | BadVersionString error
  | ChecksumMustNotBeNil
  | OSIsRequired
  | ArchIsRequired
  | CouldNotLookupForUpdates error
  | UnableToGeneratePatch error
  | NoUpdatesAvailable
  | NoSuchOS
  | NoSuchArch
  | NoMatchingChecksum
  | MissingAssetVersion
  | CouldNotGetAssetInfo error
  | CouldNotPushAsset error
  | UnknownOS string
  | UnknownArchitecture string
  | CouldNotFindAssetInfo
  | CouldNotCreateSignature string error

text \<open>
  A Go call either panics (a nil pointer dereference, an assignment to an entry of a nil
  map) or returns. What it returns is the payload: \<open>error + 'a\<close> for \<^verbatim>\<open>(T, error)\<close>,
  \<open>error option\<close> for a lone \<^verbatim>\<open>error\<close> (\<open>None\<close> is \<^verbatim>\<open>nil\<close>).
\<close>

datatype 'a outcome = Panic | Returns 'a

section \<open>Semantic versions\<close>

text \<open>
  The version type and its comparison belong to the imported package
  \<^verbatim>\<open>github.com/blang/semver\<close>: major, minor and patch numbers, a list of pre-release
  identifiers (numeric or alphanumeric) and build metadata. \<^verbatim>\<open>Compare\<close> orders by
  major, minor, patch; a version without pre-release identifiers is above one with them;
  identifiers are compared left to right, a numeric one below an alphanumeric one, and
  the longer list wins when one is a prefix of the other. Build metadata takes no part.
\<close>

datatype PRVersion = PRNum nat | PRAlpha string

record Version =
  Version_Major :: nat
  Version_Minor :: nat
  Version_Patch :: nat
  Version_Pre :: "PRVersion list"
  Version_Build :: "string list"

fun PRVersion_Compare :: "PRVersion \<Rightarrow> PRVersion \<Rightarrow> int" where
  "PRVersion_Compare (PRNum a) (PRAlpha b) = - 1"
| "PRVersion_Compare (PRAlpha a) (PRNum b) = 1"
| "PRVersion_Compare (PRNum a) (PRNum b) = (if a = b then 0 else if a > b then 1 else - 1)"
| "PRVersion_Compare (PRAlpha a) (PRAlpha b) = (if a = b then 0 else if a > b then 1 else - 1)"

fun Pre_Compare :: "PRVersion list \<Rightarrow> PRVersion list \<Rightarrow> int" where
  "Pre_Compare [] [] = 0"
| "Pre_Compare [] (y # ys) = - 1"
| "Pre_Compare (x # xs) [] = 1"
| "Pre_Compare (x # xs) (y # ys) =
     (let comp = PRVersion_Compare x y
      in if comp = 0 then Pre_Compare xs ys else if comp = 1 then 1 else - 1)"

definition Compare :: "Version \<Rightarrow> Version \<Rightarrow> int" where
  "Compare v o' =
     (if Version_Major v \<noteq> Version_Major o' then
        (if Version_Major v > Version_Major o' then 1 else - 1)
      else if Version_Minor v \<noteq> Version_Minor o' then
        (if Version_Minor v > Version_Minor o' then 1 else - 1)
      else if Version_Patch v \<noteq> Version_Patch o' then
        (if Version_Patch v > Version_Patch o' then 1 else - 1)
      else if Version_Pre v = [] \<and> Version_Pre o' = [] then 0
      else if Version_Pre v = [] \<and> Version_Pre o' \<noteq> [] then 1
      else if Version_Pre v \<noteq> [] \<and> Version_Pre o' = [] then - 1
      else Pre_Compare (Version_Pre v) (Version_Pre o'))"

definition EQ :: "Version \<Rightarrow> Version \<Rightarrow> bool" where
  "EQ v o' = (Compare v o' = 0)"

definition GT :: "Version \<Rightarrow> Version \<Rightarrow> bool" where
  "GT v o' = (Compare v o' = 1)"

definition LTE :: "Version \<Rightarrow> Version \<Rightarrow> bool" where
  "LTE v o' = (Compare v o' \<le> 0)"

text \<open>The zero value of \<^verbatim>\<open>semver.Version\<close>.\<close>

definition emptyVersion :: Version where
  "emptyVersion = \<lparr>Version_Major = 0, Version_Minor = 0, Version_Patch = 0,
                    Version_Pre = [], Version_Build = []\<rparr>"

text \<open>Decimal rendering of an unsigned number, and \<^verbatim>\<open>Version.String\<close>.\<close>

fun decimal :: "nat \<Rightarrow> string" where
  "decimal n =
     (if n < 10 then [''0123456789'' ! n]
      else decimal (n div 10) @ [''0123456789'' ! (n mod 10)])"

declare decimal.simps [simp del]

fun PRVersion_String :: "PRVersion \<Rightarrow> string" where
  "PRVersion_String (PRNum n) = decimal n"
| "PRVersion_String (PRAlpha s) = s"

fun join_dots :: "string list \<Rightarrow> string" where
  "join_dots [] = []"
| "join_dots [s] = s"
| "join_dots (s # t # ts) = s @ ''.'' @ join_dots (t # ts)"

definition Version_String :: "Version \<Rightarrow> string" where
  "Version_String v =
     decimal (Version_Major v) @ ''.'' @ decimal (Version_Minor v) @ ''.'' @
     decimal (Version_Patch v) @
     (if Version_Pre v \<noteq> [] then ''-'' @ join_dots (map PRVersion_String (Version_Pre v))
      else []) @
     (if Version_Build v \<noteq> [] then ''+'' @ join_dots (Version_Build v) else [])"

section \<open>The asset classifier\<close>

text \<open>The package-level name tables \<^verbatim>\<open>Arch\<close> and \<^verbatim>\<open>OS\<close>.\<close>

definition Arch_X64 :: string where "Arch_X64 = ''amd64''"
definition Arch_X86 :: string where "Arch_X86 = ''386''"
definition Arch_ARM :: string where "Arch_ARM = ''arm''"

definition OS_Windows :: string where "OS_Windows = ''windows''"
definition OS_Linux :: string where "OS_Linux = ''linux''"
definition OS_Darwin :: string where "OS_Darwin = ''darwin''"

record AssetInfo =
  OS :: string
  Arch :: string

text \<open>
  The regular expression
  \<^verbatim>\<open>^update_(darwin|windows|linux)_(arm|386|amd64)\.?.*$\<close>.
  The alternatives of a group are tried in the order written (leftmost-first), each
  followed by the rest of the pattern. The tail \<^verbatim>\<open>\.?.*$\<close> is an optional dot, then
  any characters but a line feed, up to the end of the text: it accepts exactly the
  strings without a line feed.
\<close>

definition re_tail :: "string \<Rightarrow> bool" where
  "re_tail rest = (CHR 0x0A \<notin> set rest)"

definition re_alternatives :: "(string \<times> string) list" where
  "re_alternatives =
     concat (map (\<lambda>os. map (\<lambda>arch. (os, arch)) [''arm'', ''386'', ''amd64''])
                 [''darwin'', ''windows'', ''linux''])"

definition re_accepts :: "string \<Rightarrow> string \<times> string \<Rightarrow> bool" where
  "re_accepts s alt =
     (let p = ''update_'' @ fst alt @ ''_'' @ snd alt
      in take (length p) s = p \<and> re_tail (drop (length p) s))"

text \<open>
  \<^verbatim>\<open>FindStringSubmatch\<close>: the whole match and the two groups, or the empty (nil)
  slice when the text does not match.
\<close>

definition FindStringSubmatch :: "string \<Rightarrow> string list" where
  "FindStringSubmatch s =
     (case find (re_accepts s) re_alternatives of
        None \<Rightarrow> []
      | Some (os, arch) \<Rightarrow> [s, os, arch])"

definition MatchString :: "string \<Rightarrow> bool" where
  "MatchString s = (FindStringSubmatch s \<noteq> [])"

definition getAssetInfo :: "string \<Rightarrow> error + AssetInfo" where
  "getAssetInfo s =
     (let matches = FindStringSubmatch s
      in if length matches \<ge> 3 then
           (if matches ! 1 \<noteq> OS_Windows \<and> matches ! 1 \<noteq> OS_Linux \<and> matches ! 1 \<noteq> OS_Darwin
              then Inl (UnknownOS (matches ! 1))
            else if matches ! 2 \<noteq> Arch_X64 \<and> matches ! 2 \<noteq> Arch_X86 \<and> matches ! 2 \<noteq> Arch_ARM
              then Inl (UnknownArchitecture (matches ! 2))
            else Inr \<lparr>OS = matches ! 1, Arch = matches ! 2\<rparr>)
         else Inl CouldNotFindAssetInfo)"

definition isUpdateAsset :: "string \<Rightarrow> bool" where
  "isUpdateAsset s = MatchString s"

section \<open>The data model\<close>

text \<open>
  \<^verbatim>\<open>Asset\<close> embeds \<^verbatim>\<open>AssetInfo\<close>, whose fields \<open>OS\<close> and \<open>Arch\<close> it promotes.
  The other structs have their fields prefixed with the struct's name, since several of
  them share field names (\<^verbatim>\<open>URL\<close>, \<^verbatim>\<open>Version\<close>, \<^verbatim>\<open>Checksum\<close>).
\<close>

record Asset = AssetInfo +
  Asset_id :: int
  Asset_v :: Version
  Asset_Name :: string
  Asset_URL :: string
  Asset_LocalFile :: string
  Asset_Checksum :: string
  Asset_Signature :: string

record Release =
  Release_id :: int
  Release_URL :: string
  Release_Version :: Version
  Release_Assets :: "Asset list"

text \<open>
  What the release feed delivers (\<^verbatim>\<open>github.RepositoryRelease\<close> and
  \<^verbatim>\<open>github.ReleaseAsset\<close>): the fields the code reads are pointers, \<open>None\<close> is nil.
\<close>

record ReleaseAsset =
  ReleaseAsset_ID :: "int option"
  ReleaseAsset_Name :: "string option"
  ReleaseAsset_BrowserDownloadURL :: "string option"

record RepositoryRelease =
  RepositoryRelease_ID :: "int option"
  RepositoryRelease_TagName :: "string option"
  RepositoryRelease_ZipballURL :: "string option"
  RepositoryRelease_Assets :: "ReleaseAsset list"

text \<open>
  The package \<^verbatim>\<open>args\<close>. \<open>Params_Tags\<close> is \<open>None\<close> for a nil map.
\<close>

record Params =
  Params_Version :: int
  Params_AppVersion :: string
  Params_OS :: string
  Params_Arch :: string
  Params_Checksum :: string
  Params_Tags :: "(string \<rightharpoonup> string) option"

record Result =
  Result_Initiative :: string
  Result_URL :: string
  Result_PatchURL :: string
  Result_PatchType :: string
  Result_Version :: string
  Result_Checksum :: string
  Result_Signature :: string

definition INITIATIVE_AUTO :: string where "INITIATIVE_AUTO = ''auto''"
definition PATCHTYPE_BSDIFF :: string where "PATCHTYPE_BSDIFF = ''bsdiff''"
definition PATCHTYPE_NONE :: string where "PATCHTYPE_NONE = ''''"

text \<open>
  The patch engine is not part of the sources at hand; of its result only the field
  \<^verbatim>\<open>File\<close> is read.
\<close>

record Patch =
  Patch_File :: string

text \<open>
  The release manager. Its \<^verbatim>\<open>client\<close>, \<^verbatim>\<open>privKey\<close> and \<^verbatim>\<open>mu\<close> are handles
  that only the collaborators below use. A map field is \<open>None\<close> when the Go map is nil;
  an inner map that is absent and one that is nil read the same in Go, both are \<open>None\<close>.
  The maps hold pointers to assets that nothing writes to once they are stored, so the
  model stores the assets themselves.
\<close>

record ReleaseManager =
  owner :: string
  repo :: string
  assetDir :: string
  patchDir :: string
  updateAssetsMap :: "(string \<rightharpoonup> (string \<rightharpoonup> (string \<rightharpoonup> Asset))) option"
  latestAssetsMap :: "(string \<rightharpoonup> (string \<rightharpoonup> Asset)) option"

text \<open>
  The collaborators, as parameters: the paginated release feed, the semver parser, the
  downloader, the file hasher, the RSA signer (with the manager's key), the patch engine,
  and the order in which the Go runtime enumerates the keys of a map in a
  \<^verbatim>\<open>range\<close> loop, which the language leaves unspecified.
\<close>

record env =
  ListReleases :: "string \<Rightarrow> string \<Rightarrow> int \<Rightarrow> error + RepositoryRelease list"
  semver_Parse :: "string \<Rightarrow> error + Version"
  downloadAsset :: "string \<Rightarrow> string \<Rightarrow> error + string"
  update_ChecksumForFile :: "string \<Rightarrow> error + 8 word list"
  rsa_SignPKCS1v15 :: "8 word list \<Rightarrow> error + 8 word list"
  generatePatch :: "string \<Rightarrow> string \<Rightarrow> string \<Rightarrow> string \<Rightarrow> error + Patch"
  rangeOrder :: "(string \<rightharpoonup> Asset) \<Rightarrow> string list"

definition NewReleaseManager :: "string \<Rightarrow> string \<Rightarrow> string \<Rightarrow> string \<Rightarrow> ReleaseManager" where
  "NewReleaseManager owner' repo' assetDir' patchDir' =
     \<lparr>owner = owner', repo = repo', assetDir = assetDir', patchDir = patchDir',
      updateAssetsMap = Some Map.empty, latestAssetsMap = Some Map.empty\<rparr>"

section \<open>Hashing and signing\<close>

definition hex_EncodeToString :: "8 word list \<Rightarrow> string" where
  "hex_EncodeToString bs =
     concat (map (\<lambda>b. [''0123456789abcdef'' ! (unat b div 16),
                        ''0123456789abcdef'' ! (unat b mod 16)]) bs)"

definition checksumForFile :: "env \<Rightarrow> string \<Rightarrow> error + (string \<times> 8 word list)" where
  "checksumForFile e file =
     (case update_ChecksumForFile e file of
        Inl err \<Rightarrow> Inl err
      | Inr checksum \<Rightarrow> Inr (hex_EncodeToString checksum, checksum))"

definition signatureForFile :: "env \<Rightarrow> string \<Rightarrow> error + string" where
  "signatureForFile e file =
     (case checksumForFile e file of
        Inl err \<Rightarrow> Inl err
      | Inr (_, checksum) \<Rightarrow>
          (case rsa_SignPKCS1v15 e checksum of
             Inl err \<Rightarrow> Inl (CouldNotCreateSignature file err)
           | Inr signature \<Rightarrow> Inr (hex_EncodeToString signature)))"

section \<open>Listing the releases\<close>

fun release_assets :: "ReleaseAsset list \<Rightarrow> Asset list \<Rightarrow> Asset list outcome" where
  "release_assets [] assets = Returns assets"
| "release_assets (asset # rest) assets =
     (case ReleaseAsset_ID asset of
        None \<Rightarrow> Panic
      | Some i \<Rightarrow>
          (case ReleaseAsset_Name asset of
             None \<Rightarrow> Panic
           | Some name \<Rightarrow>
               (case ReleaseAsset_BrowserDownloadURL asset of
                  None \<Rightarrow> Panic
                | Some url \<Rightarrow>
                    release_assets rest
                      (assets @ [\<lparr>OS = '''', Arch = '''', Asset_id = i, Asset_v = emptyVersion,
                                  Asset_Name = name, Asset_URL = url, Asset_LocalFile = '''',
                                  Asset_Checksum = '''', Asset_Signature = ''''\<rparr>]))))"

text \<open>
  The loop over one page. A tag that does not parse skips its release; the others are
  appended to \<open>releases\<close>.
\<close>

fun page_releases :: "env \<Rightarrow> RepositoryRelease list \<Rightarrow> Release list \<Rightarrow> Release list outcome" where
  "page_releases e [] releases = Returns releases"
| "page_releases e (r # rels) releases =
     (case RepositoryRelease_TagName r of
        None \<Rightarrow> Panic
      | Some version \<Rightarrow>
          (case semver_Parse e version of
             Inl err \<Rightarrow> page_releases e rels releases
           | Inr v \<Rightarrow>
               (case RepositoryRelease_ID r of
                  None \<Rightarrow> Panic
                | Some i \<Rightarrow>
                    (case RepositoryRelease_ZipballURL r of
                       None \<Rightarrow> Panic
                     | Some url \<Rightarrow>
                         (case release_assets (RepositoryRelease_Assets r) [] of
                            Panic \<Rightarrow> Panic
                          | Returns assets \<Rightarrow>
                              page_releases e rels
                                (releases @ [\<lparr>Release_id = i, Release_URL = url,
                                              Release_Version = v,
                                              Release_Assets = assets\<rparr>]))))))"

text \<open>
  The loop over the pages, from the page index and the value of the variable
  \<open>releases\<close> on entry. On a page that is not empty the variable is assigned a fresh
  empty slice (\<^verbatim>\<open>releases = make([]Release, 0, len(rels))\<close>) before the page's
  releases are appended. A feed that never serves an empty page keeps the loop running:
  the result is then \<open>None\<close>.
\<close>

partial_function (option) getReleases_loop ::
  "env \<Rightarrow> string \<Rightarrow> string \<Rightarrow> int \<Rightarrow> Release list \<Rightarrow> (error + Release list) outcome option" where
  "getReleases_loop e owner' repo' page releases =
     (case ListReleases e owner' repo' page of
        Inl err \<Rightarrow> Some (Returns (Inl err))
      | Inr rels \<Rightarrow>
          if length rels = 0 then Some (Returns (Inr releases))
          else (let releases = [] in
                case page_releases e rels releases of
                  Panic \<Rightarrow> Some Panic
                | Returns releases \<Rightarrow> getReleases_loop e owner' repo' (page + 1) releases))"

text \<open>
  \<^verbatim>\<open>sort.Sort(sort.Reverse(releasesByID(releases)))\<close>: descending by id. The library
  sort is not stable; the model fixes the order of releases with equal ids, and none of
  the results below depends on it.
\<close>

definition sort_Reverse_releasesByID :: "Release list \<Rightarrow> Release list" where
  "sort_Reverse_releasesByID releases = sort_key (\<lambda>r. - Release_id r) releases"

definition getReleases :: "env \<Rightarrow> ReleaseManager \<Rightarrow> (error + Release list) outcome option" where
  "getReleases e g =
     (case getReleases_loop e (owner g) (repo g) 1 [] of
        None \<Rightarrow> None
      | Some Panic \<Rightarrow> Some Panic
      | Some (Returns (Inl err)) \<Rightarrow> Some (Returns (Inl err))
      | Some (Returns (Inr releases)) \<Rightarrow> Some (Returns (Inr (sort_Reverse_releasesByID releases))))"

section \<open>The catalog\<close>

definition getProductUpdate :: "ReleaseManager \<Rightarrow> string \<Rightarrow> string \<Rightarrow> error + Asset" where
  "getProductUpdate g os arch =
     (case latestAssetsMap g of
        None \<Rightarrow> Inl NoUpdatesAvailable
      | Some latest \<Rightarrow>
          (case latest os of
             None \<Rightarrow> Inl NoSuchOS
           | Some by_arch \<Rightarrow>
               (case by_arch arch of
                  None \<Rightarrow> Inl NoSuchArch
                | Some asset \<Rightarrow> Inr asset)))"

text \<open>
  The values of a map in the order a \<^verbatim>\<open>range\<close> loop meets them: the runtime's
  enumeration of the keys, each with its value.
\<close>

definition range_values :: "env \<Rightarrow> (string \<rightharpoonup> Asset) \<Rightarrow> Asset list" where
  "range_values e m = List.map_filter m (rangeOrder e m)"

definition lookupAssetWithChecksum ::
  "env \<Rightarrow> ReleaseManager \<Rightarrow> string \<Rightarrow> string \<Rightarrow> string \<Rightarrow> error + Asset" where
  "lookupAssetWithChecksum e g os arch checksum =
     (case updateAssetsMap g of
        None \<Rightarrow> Inl NoUpdatesAvailable
      | Some assets \<Rightarrow>
          (case assets os of
             None \<Rightarrow> Inl NoSuchOS
           | Some by_arch \<Rightarrow>
               (case by_arch arch of
                  None \<Rightarrow> Inl NoSuchArch
                | Some by_version \<Rightarrow>
                    (case find (\<lambda>a. Asset_Checksum a = checksum) (range_values e by_version) of
                       Some a \<Rightarrow> Inr a
                     | None \<Rightarrow> Inl NoMatchingChecksum))))"

text \<open>
  \<^verbatim>\<open>pushAsset\<close> fills in the asset it is handed (a fresh copy owned by the caller)
  and stores it. The manager it returns is the state of the catalog when the call ends,
  also when it ends early. Assigning to an entry of a nil map panics.
\<close>

definition pushAsset ::
  "env \<Rightarrow> string \<Rightarrow> string \<Rightarrow> Asset \<Rightarrow> ReleaseManager \<Rightarrow> error option outcome \<times> ReleaseManager" where
  "pushAsset e os arch asset0 g =
     (let version = Asset_v asset0;
          asset1 = asset0\<lparr>OS := os, Arch := arch\<rparr>
      in if EQ version emptyVersion then (Returns (Some MissingAssetVersion), g)
         else
           (case downloadAsset e (Asset_URL asset1) (assetDir g) of
              Inl err \<Rightarrow> (Returns (Some err), g)
            | Inr localfile \<Rightarrow>
                (case checksumForFile e localfile of
                   Inl err \<Rightarrow> (Returns (Some err), g)
                 | Inr (checksumHex, _) \<Rightarrow>
                     (case signatureForFile e localfile of
                        Inl err \<Rightarrow> (Returns (Some err), g)
                      | Inr signature \<Rightarrow>
                          (let asset = asset1\<lparr>Asset_Checksum := checksumHex,
                                              Asset_Signature := signature\<rparr>
                           in case updateAssetsMap g of
                                None \<Rightarrow> (Panic, g)
                              | Some assets \<Rightarrow>
                                  (let by_arch = (case assets os of None \<Rightarrow> Map.empty | Some m \<Rightarrow> m);
                                       by_version = (case by_arch arch of None \<Rightarrow> Map.empty | Some m \<Rightarrow> m);
                                       g1 = g\<lparr>updateAssetsMap :=
                                               Some (assets(os \<mapsto> by_arch(arch \<mapsto>
                                                 by_version(Version_String version \<mapsto> asset))))\<rparr>
                                   in case latestAssetsMap g1 of
                                        None \<Rightarrow> (Panic, g1)
                                      | Some latest \<Rightarrow>
                                          (let latest_os = (case latest os of None \<Rightarrow> Map.empty | Some m \<Rightarrow> m);
                                               g2 = g1\<lparr>latestAssetsMap := Some (latest(os \<mapsto> latest_os))\<rparr>
                                           in case latest_os arch of
                                                None \<Rightarrow>
                                                  (Returns None,
                                                   g1\<lparr>latestAssetsMap :=
                                                        Some (latest(os \<mapsto> latest_os(arch \<mapsto> asset)))\<rparr>)
                                              | Some current \<Rightarrow>
                                                  if GT (Asset_v asset) (Asset_v current) then
                                                    (Returns None,
                                                     g1\<lparr>latestAssetsMap :=
                                                          Some (latest(os \<mapsto> latest_os(arch \<mapsto> asset)))\<rparr>)
                                                  else (Returns None, g2))))))))"

text \<open>The loop over the assets of one release, and the loop over the releases.\<close>

fun update_assets ::
  "env \<Rightarrow> Version \<Rightarrow> Asset list \<Rightarrow> ReleaseManager \<Rightarrow> error option outcome \<times> ReleaseManager" where
  "update_assets e ver [] g = (Returns None, g)"
| "update_assets e ver (a # rest) g =
     (if isUpdateAsset (Asset_Name a) then
        (let asset = a\<lparr>Asset_v := ver\<rparr>
         in case getAssetInfo (Asset_Name asset) of
              Inl err \<Rightarrow> (Returns (Some (CouldNotGetAssetInfo err)), g)
            | Inr info \<Rightarrow>
                (case pushAsset e (OS info) (Arch info) asset g of
                   (Panic, g') \<Rightarrow> (Panic, g')
                 | (Returns (Some err), g') \<Rightarrow> (Returns (Some (CouldNotPushAsset err)), g')
                 | (Returns None, g') \<Rightarrow> update_assets e ver rest g'))
      else update_assets e ver rest g)"

fun update_releases ::
  "env \<Rightarrow> Release list \<Rightarrow> ReleaseManager \<Rightarrow> error option outcome \<times> ReleaseManager" where
  "update_releases e [] g = (Returns None, g)"
| "update_releases e (r # rs) g =
     (case update_assets e (Release_Version r) (Release_Assets r) g of
        (Returns None, g') \<Rightarrow> update_releases e rs g'
      | (Returns (Some err), g') \<Rightarrow> (Returns (Some err), g')
      | (Panic, g') \<Rightarrow> (Panic, g'))"

text \<open>
  \<^verbatim>\<open>UpdateAssetsMap\<close>: the outcome and the catalog the call leaves behind;
  \<open>None\<close> when the listing of the releases never ends.
\<close>

definition UpdateAssetsMap ::
  "env \<Rightarrow> ReleaseManager \<Rightarrow> (error option outcome \<times> ReleaseManager) option" where
  "UpdateAssetsMap e g =
     (case getReleases e g of
        None \<Rightarrow> None
      | Some Panic \<Rightarrow> Some (Panic, g)
      | Some (Returns (Inl err)) \<Rightarrow> Some (Returns (Some err), g)
      | Some (Returns (Inr rs)) \<Rightarrow> Some (update_releases e rs g))"

section \<open>The update resolver\<close>

text \<open>Reading a key of a Go map of strings: the empty string when the key is absent.\<close>

definition tag :: "(string \<rightharpoonup> string) \<Rightarrow> string \<Rightarrow> string" where
  "tag m k = (case m k of None \<Rightarrow> '''' | Some s \<Rightarrow> s)"

text \<open>
  \<^verbatim>\<open>CheckForUpdate\<close> from the test \<^verbatim>\<open>p.Tags != nil\<close> on, for the params \<open>p\<close> that
  the pointer refers to. It returns the outcome and the params as the call leaves them.
\<close>

definition CheckForUpdate_body ::
  "env \<Rightarrow> ReleaseManager \<Rightarrow> Params \<Rightarrow> (error + Result) outcome \<times> Params" where
  "CheckForUpdate_body e g p0 =
     (let p = (case Params_Tags p0 of
                 None \<Rightarrow> p0
               | Some tags \<Rightarrow>
                   (let p1 = (if tag tags ''os'' \<noteq> '''' then p0\<lparr>Params_OS := tag tags ''os''\<rparr> else p0)
                    in if tag tags ''arch'' \<noteq> '''' then p1\<lparr>Params_Arch := tag tags ''arch''\<rparr> else p1))
      in case semver_Parse e (Params_AppVersion p) of
           Inl err \<Rightarrow> (Returns (Inl (BadVersionString err)), p)
         | Inr appVersion \<Rightarrow>
             if Params_Checksum p = '''' then (Returns (Inl ChecksumMustNotBeNil), p)
             else if Params_OS p = '''' then (Returns (Inl OSIsRequired), p)
             else if Params_Arch p = '''' then (Returns (Inl ArchIsRequired), p)
             else
               (case getProductUpdate g (Params_OS p) (Params_Arch p) of
                  Inl err \<Rightarrow> (Returns (Inl (CouldNotLookupForUpdates err)), p)
                | Inr update \<Rightarrow>
                    if LTE (Asset_v update) appVersion then (Returns (Inl ErrNoUpdateAvailable), p)
                    else
                      (case lookupAssetWithChecksum e g (Params_OS p) (Params_Arch p)
                              (Params_Checksum p) of
                         Inl err \<Rightarrow>
                           (Returns (Inr \<lparr>Result_Initiative = INITIATIVE_AUTO,
                                          Result_URL = Asset_URL update,
                                          Result_PatchURL = '''',
                                          Result_PatchType = PATCHTYPE_NONE,
                                          Result_Version = Version_String (Asset_v update),
                                          Result_Checksum = Asset_Checksum update,
                                          Result_Signature = Asset_Signature update\<rparr>), p)
                       | Inr current \<Rightarrow>
                           (case generatePatch e (Asset_URL current) (Asset_URL update)
                                   (assetDir g) (patchDir g) of
                              Inl err \<Rightarrow> (Returns (Inl (UnableToGeneratePatch err)), p)
                            | Inr patch \<Rightarrow>
                                (Returns (Inr \<lparr>Result_Initiative = INITIATIVE_AUTO,
                                               Result_URL = Asset_URL update,
                                               Result_PatchURL = Patch_File patch,
                                               Result_PatchType = PATCHTYPE_BSDIFF,
                                               Result_Version = Version_String (Asset_v update),
                                               Result_Checksum = Asset_Checksum update,
                                               Result_Signature = Asset_Signature update\<rparr>), p)))))"

text \<open>
  \<^verbatim>\<open>CheckForUpdate\<close> takes a pointer: \<open>None\<close> is the nil pointer. The first statement
  reads \<^verbatim>\<open>p.Version\<close>, which panics on nil; the test \<^verbatim>\<open>p == nil\<close> comes after it.
  The second component of the result is what the pointer refers to when the call ends.
\<close>

definition CheckForUpdate ::
  "env \<Rightarrow> ReleaseManager \<Rightarrow> Params option \<Rightarrow> (error + Result) outcome \<times> Params option" where
  "CheckForUpdate e g p =
     (case p of
        None \<Rightarrow> (Panic, None)
      | Some p0 \<Rightarrow>
          (let p' = Some (if Params_Version p0 < 1 then p0\<lparr>Params_Version := 1\<rparr> else p0)
           in case p' of
                None \<Rightarrow> (Returns (Inl ExpectingParams), None)
              | Some p1 \<Rightarrow>
                  (case CheckForUpdate_body e g p1 of (res, p2) \<Rightarrow> (res, Some p2))))"

section \<open>The platform of a query\<close>

text \<open>
  The operating system and the architecture a query is resolved for: the tags
  \<^verbatim>\<open>os\<close> and \<^verbatim>\<open>arch\<close> when they are set and not empty, the fields of the params
  otherwise.
\<close>

definition query_OS :: "Params \<Rightarrow> string" where
  "query_OS p =
     (case Params_Tags p of
        None \<Rightarrow> Params_OS p
      | Some tags \<Rightarrow> if tag tags ''os'' \<noteq> '''' then tag tags ''os'' else Params_OS p)"

definition query_Arch :: "Params \<Rightarrow> string" where
  "query_Arch p =
     (case Params_Tags p of
        None \<Rightarrow> Params_Arch p
      | Some tags \<Rightarrow> if tag tags ''arch'' \<noteq> '''' then tag tags ''arch'' else Params_Arch p)"

section \<open>Reading the catalog\<close>

text \<open>
  The two indices at a platform, with nil and absent maps read as empty, the way Go reads
  them: \<^verbatim>\<open>updateAssetsMap[os][arch]\<close> as a map from version strings to assets, and
  \<^verbatim>\<open>latestAssetsMap[os][arch]\<close>.
\<close>

definition versionsAt :: "ReleaseManager \<Rightarrow> string \<Rightarrow> string \<Rightarrow> (string \<rightharpoonup> Asset)" where
  "versionsAt g os arch =
     (case updateAssetsMap g of
        None \<Rightarrow> Map.empty
      | Some assets \<Rightarrow>
          (case assets os of
             None \<Rightarrow> Map.empty
           | Some by_arch \<Rightarrow> (case by_arch arch of None \<Rightarrow> Map.empty | Some m \<Rightarrow> m)))"

definition latestAt :: "ReleaseManager \<Rightarrow> string \<Rightarrow> string \<Rightarrow> Asset option" where
  "latestAt g os arch =
     (case latestAssetsMap g of
        None \<Rightarrow> None
      | Some latest \<Rightarrow> (case latest os of None \<Rightarrow> None | Some by_arch \<Rightarrow> by_arch arch))"

text \<open>
  What the pushes maintain at every platform: a platform without a latest asset has no
  asset at all; a latest asset has its version string among the keys of the platform's
  versions, and no asset of the platform has a version greater than the latest one's.
\<close>

definition latest_is_greatest :: "ReleaseManager \<Rightarrow> bool" where
  "latest_is_greatest g =
     (\<forall>os arch.
        case latestAt g os arch of
          None \<Rightarrow> versionsAt g os arch = Map.empty
        | Some l \<Rightarrow>
            versionsAt g os arch (Version_String (Asset_v l)) \<noteq> None \<and>
            (\<forall>ver a. versionsAt g os arch ver = Some a \<longrightarrow> \<not> GT (Asset_v a) (Asset_v l)))"

section \<open>A sample deployment\<close>

text \<open>
  Concrete collaborators for the examples: a feed given by its pages, a parser that knows
  a few tags, a downloader that fails for the URL \<^verbatim>\<open>broken\<close>, a one-byte digest, and a
  map enumeration in ascending order of these versions.
\<close>

definition semver :: "nat \<Rightarrow> nat \<Rightarrow> nat \<Rightarrow> Version" where
  "semver major minor patch =
     \<lparr>Version_Major = major, Version_Minor = minor, Version_Patch = patch,
      Version_Pre = [], Version_Build = []\<rparr>"

definition sample_Parse :: "string \<Rightarrow> error + Version" where
  "sample_Parse s =
     (if s = ''1.0.0'' then Inr (semver 1 0 0)
      else if s = ''1.1.0'' then Inr (semver 1 1 0)
      else if s = ''2.0.0'' then Inr (semver 2 0 0)
      else Inl (External ''No Major.Minor.Patch elements found''))"

definition sample_env :: "RepositoryRelease list list \<Rightarrow> env" where
  "sample_env pages =
     \<lparr>ListReleases = (\<lambda>owner' repo' page.
         if 1 \<le> page \<and> nat page \<le> length pages then Inr (pages ! (nat page - 1)) else Inr []),
      semver_Parse = sample_Parse,
      downloadAsset = (\<lambda>url dir.
         if url = ''broken'' then Inl (External ''download failed'') else Inr (dir @ url)),
      update_ChecksumForFile = (\<lambda>file. Inr [of_nat (length file)]),
      rsa_SignPKCS1v15 = (\<lambda>digest. Inr (rev digest)),
      generatePatch = (\<lambda>current update assetDir' patchDir'. Inr \<lparr>Patch_File = ''patch''\<rparr>),
      rangeOrder = (\<lambda>m. filter (\<lambda>k. m k \<noteq> None) [''1.0.0'', ''1.1.0'', ''2.0.0''])\<rparr>"

definition sample_manager :: ReleaseManager where
  "sample_manager = NewReleaseManager ''owner'' ''repo'' ''a/'' ''p/''"

definition sample_release :: "int \<Rightarrow> string \<Rightarrow> (int \<times> string \<times> string) list \<Rightarrow> RepositoryRelease" where
  "sample_release i tag' assets =
     \<lparr>RepositoryRelease_ID = Some i, RepositoryRelease_TagName = Some tag',
      RepositoryRelease_ZipballURL = Some ''zip'',
      RepositoryRelease_Assets =
        map (\<lambda>(j, name, url). \<lparr>ReleaseAsset_ID = Some j, ReleaseAsset_Name = Some name,
                                  ReleaseAsset_BrowserDownloadURL = Some url\<rparr>) assets\<rparr>"

definition sample_asset :: "string \<Rightarrow> Version \<Rightarrow> string \<Rightarrow> string \<Rightarrow> Asset" where
  "sample_asset os ver url checksum =
     \<lparr>OS = os, Arch = ''amd64'', Asset_id = 1, Asset_v = ver, Asset_Name = ''update_'' @ os @ ''_amd64'',
      Asset_URL = url, Asset_LocalFile = '''', Asset_Checksum = checksum,
      Asset_Signature = ''5a''\<rparr>"

text \<open>
  A catalog for \<^verbatim>\<open>linux/amd64\<close> with three versions, of which \<^verbatim>\<open>1.0.0\<close> and
  \<^verbatim>\<open>1.1.0\<close> are the same binary (one checksum), and \<^verbatim>\<open>2.0.0\<close> is the latest.
\<close>

definition sample_catalog :: ReleaseManager where
  "sample_catalog =
     sample_manager
       \<lparr>updateAssetsMap := Some [''linux'' \<mapsto> [''amd64'' \<mapsto>
          [''1.0.0'' \<mapsto> sample_asset ''linux'' (semver 1 0 0) ''u100'' ''c0'',
           ''1.1.0'' \<mapsto> sample_asset ''linux'' (semver 1 1 0) ''u110'' ''c0'',
           ''2.0.0'' \<mapsto> sample_asset ''linux'' (semver 2 0 0) ''u200'' ''c2'']]],
        latestAssetsMap := Some [''linux'' \<mapsto> [''amd64'' \<mapsto>
           sample_asset ''linux'' (semver 2 0 0) ''u200'' ''c2'']]\<rparr>"

definition sample_params :: "string \<Rightarrow> string \<Rightarrow> Params" where
  "sample_params app checksum =
     \<lparr>Params_Version = 0, Params_AppVersion = app, Params_OS = ''linux'', Params_Arch = ''amd64'',
      Params_Checksum = checksum, Params_Tags = None\<rparr>"

text \<open>
  Three feeds. The first serves two pages, release \<^verbatim>\<open>2.0.0\<close> on page 1 and release
  \<^verbatim>\<open>1.0.0\<close> on page 2. The second serves one release whose second asset cannot be
  downloaded. The third serves one release with two assets for the same platform.
\<close>

definition two_page_feed :: "RepositoryRelease list list" where
  "two_page_feed =
     [[sample_release 2 ''2.0.0'' [(20, ''update_linux_amd64'', ''u200'')]],
      [sample_release 1 ''1.0.0'' [(10, ''update_linux_amd64'', ''u100'')]]]"

definition failing_feed :: "RepositoryRelease list list" where
  "failing_feed =
     [[sample_release 1 ''1.0.0''
         [(10, ''update_linux_amd64'', ''u100''), (11, ''update_darwin_amd64'', ''broken'')]]]"

definition twin_feed :: "RepositoryRelease list list" where
  "twin_feed =
     [[sample_release 1 ''1.0.0''
         [(10, ''update_linux_amd64'', ''u100''), (11, ''update_linux_amd64.zip'', ''u100z'')]]]"

text \<open>An asset as \<^verbatim>\<open>getReleases\<close> lists it, and as \<^verbatim>\<open>pushAsset\<close> stores it.\<close>

definition listed_asset :: "int \<Rightarrow> string \<Rightarrow> string \<Rightarrow> Asset" where
  "listed_asset i name url =
     \<lparr>OS = '''', Arch = '''', Asset_id = i, Asset_v = emptyVersion, Asset_Name = name,
      Asset_URL = url, Asset_LocalFile = '''', Asset_Checksum = '''', Asset_Signature = ''''\<rparr>"

definition stored_asset :: "int \<Rightarrow> string \<Rightarrow> string \<Rightarrow> Version \<Rightarrow> string \<Rightarrow> Asset" where
  "stored_asset i name url ver digest =
     \<lparr>OS = ''linux'', Arch = ''amd64'', Asset_id = i, Asset_v = ver, Asset_Name = name,
      Asset_URL = url, Asset_LocalFile = '''', Asset_Checksum = digest, Asset_Signature = digest\<rparr>"

text \<open>A feed whose first page is served and whose second page times out.\<close>

definition timeout_env :: env where
  "timeout_env =
     (sample_env [])
       \<lparr>ListReleases := (\<lambda>owner' repo' page.
          if page = 1 then Inr [sample_release 2 ''2.0.0'' [(20, ''update_linux_amd64'', ''u200'')]]
          else Inl (External ''timeout''))\<rparr>"

section \<open>Properties of the classifier\<close>

lemma re_alternatives_set:
  "set re_alternatives = {''darwin'', ''windows'', ''linux''} \<times> {''arm'', ''386'', ''amd64''}"
  by (auto simp: re_alternatives_def)

lemma re_accepts_iff:
  "re_accepts s (os, arch) \<longleftrightarrow>
     (\<exists>rest. s = ''update_'' @ os @ ''_'' @ arch @ rest \<and> re_tail rest)"
proof
  assume a: "re_accepts s (os, arch)"
  let ?p = "''update_'' @ os @ ''_'' @ arch"
  from a have t: "take (length ?p) s = ?p" and r: "re_tail (drop (length ?p) s)"
    by (simp_all add: re_accepts_def Let_def)
  have "s = take (length ?p) s @ drop (length ?p) s" by simp
  with t have "s = ?p @ drop (length ?p) s" by simp
  with r show "\<exists>rest. s = ''update_'' @ os @ ''_'' @ arch @ rest \<and> re_tail rest"
    by auto
next
  assume "\<exists>rest. s = ''update_'' @ os @ ''_'' @ arch @ rest \<and> re_tail rest"
  then obtain rest where s: "s = ''update_'' @ os @ ''_'' @ arch @ rest" and r: "re_tail rest"
    by blast
  show "re_accepts s (os, arch)"
    using r by (simp add: re_accepts_def Let_def s)
qed

lemma FindStringSubmatch_cases:
  "FindStringSubmatch s = [] \<and> (\<forall>alt \<in> set re_alternatives. \<not> re_accepts s alt) \<or>
   (\<exists>os arch. FindStringSubmatch s = [s, os, arch] \<and> (os, arch) \<in> set re_alternatives \<and>
      re_accepts s (os, arch))"
proof (cases "find (re_accepts s) re_alternatives")
  case None
  then have "\<forall>alt \<in> set re_alternatives. \<not> re_accepts s alt"
    by (auto simp: find_None_iff)
  with None show ?thesis by (simp add: FindStringSubmatch_def)
next
  case (Some alt)
  obtain os arch where alt: "alt = (os, arch)" by (cases alt)
  from Some have "alt \<in> set re_alternatives" "re_accepts s alt"
    by (auto simp: find_Some_iff)
  with Some alt show ?thesis by (auto simp: FindStringSubmatch_def)
qed

lemma re_alternatives_mem:
  "(os, arch) \<in> set re_alternatives \<longleftrightarrow>
     os \<in> {''darwin'', ''windows'', ''linux''} \<and> arch \<in> {''arm'', ''386'', ''amd64''}"
  unfolding re_alternatives_set by blast

lemma getAssetInfo_cases:
  "getAssetInfo s = Inl CouldNotFindAssetInfo \<and> FindStringSubmatch s = [] \<or>
   (\<exists>os arch. getAssetInfo s = Inr \<lparr>OS = os, Arch = arch\<rparr> \<and>
      FindStringSubmatch s = [s, os, arch] \<and> (os, arch) \<in> set re_alternatives \<and>
      re_accepts s (os, arch))"
proof -
  consider (none) "FindStringSubmatch s = []"
    | (some) os arch where "FindStringSubmatch s = [s, os, arch]"
        "(os, arch) \<in> set re_alternatives" "re_accepts s (os, arch)"
    using FindStringSubmatch_cases [of s] by blast
  then show ?thesis
  proof cases
    case none
    then show ?thesis by (simp add: getAssetInfo_def)
  next
    case some
    from some(2) have "os \<in> {''darwin'', ''windows'', ''linux''}" "arch \<in> {''arm'', ''386'', ''amd64''}"
      by (simp_all only: re_alternatives_mem)
    then have "getAssetInfo s = Inr \<lparr>OS = os, Arch = arch\<rparr>"
      using some(1)
      by (auto simp: getAssetInfo_def OS_Windows_def OS_Linux_def OS_Darwin_def
          Arch_X64_def Arch_X86_def Arch_ARM_def)
    with some show ?thesis by blast
  qed
qed

lemma prefix_upto_sep:
  assumes "xs @ c # ys = xs' @ c # ys'" "c \<notin> set xs" "c \<notin> set xs'"
  shows "xs = xs'"
proof -
  have "takeWhile (\<lambda>x. x \<noteq> c) (xs @ c # ys) = xs" using assms(2)
    by (induction xs) auto
  moreover have "takeWhile (\<lambda>x. x \<noteq> c) (xs' @ c # ys') = xs'" using assms(3)
    by (induction xs') auto
  ultimately show ?thesis using assms(1) by simp
qed


lemma os_no_sep: "os \<in> {''darwin'', ''windows'', ''linux''} \<Longrightarrow> CHR ''_'' \<notin> set os"
  by (elim insertE emptyE; simp)

lemma arch_unique:
  "a \<in> {''arm'', ''386'', ''amd64''} \<Longrightarrow> a' \<in> {''arm'', ''386'', ''amd64''} \<Longrightarrow>
   a @ r = a' @ r' \<Longrightarrow> a = a'"
  by (elim insertE emptyE; simp)

lemma alt_unique:
  assumes "(os, arch) \<in> set re_alternatives" "(os', arch') \<in> set re_alternatives"
    and "''update_'' @ os @ ''_'' @ arch @ rest = ''update_'' @ os' @ ''_'' @ arch' @ rest'"
  shows "os = os' \<and> arch = arch'"
proof -
  from assms(1,2) have os: "os \<in> {''darwin'', ''windows'', ''linux''}" "os' \<in> {''darwin'', ''windows'', ''linux''}"
    and arch: "arch \<in> {''arm'', ''386'', ''amd64''}" "arch' \<in> {''arm'', ''386'', ''amd64''}"
    by (simp_all only: re_alternatives_mem)
  from assms(3) have eq: "os @ CHR ''_'' # (arch @ rest) = os' @ CHR ''_'' # (arch' @ rest')"
    by simp
  have o: "os = os'"
    by (rule prefix_upto_sep [OF eq os_no_sep [OF os(1)] os_no_sep [OF os(2)]])
  with eq have "arch @ rest = arch' @ rest'" by simp
  with arch have "arch = arch'" by (rule arch_unique)
  with o show ?thesis by simp
qed

lemma first_match:
  assumes "(os, arch) \<in> set re_alternatives" "re_tail rest"
  shows "FindStringSubmatch (''update_'' @ os @ ''_'' @ arch @ rest) =
           [''update_'' @ os @ ''_'' @ arch @ rest, os, arch]"
proof -
  let ?s = "''update_'' @ os @ ''_'' @ arch @ rest"
  have acc: "re_accepts ?s (os, arch)"
    unfolding re_accepts_iff using assms(2) by blast
  consider (none) "\<forall>alt \<in> set re_alternatives. \<not> re_accepts ?s alt"
    | (some) os' arch' where "FindStringSubmatch ?s = [?s, os', arch']"
        "(os', arch') \<in> set re_alternatives" "re_accepts ?s (os', arch')"
    using FindStringSubmatch_cases [of ?s] by blast
  then show ?thesis
  proof cases
    case none
    with assms(1) acc show ?thesis by blast
  next
    case some
    from some(3) obtain rest' where "?s = ''update_'' @ os' @ ''_'' @ arch' @ rest'"
      unfolding re_accepts_iff by blast
    from alt_unique [OF assms(1) some(2) this] some(1) show ?thesis by simp
  qed
qed

lemma isUpdateAsset_iff: "isUpdateAsset s \<longleftrightarrow> FindStringSubmatch s \<noteq> []"
  by (simp add: isUpdateAsset_def MatchString_def)


text \<open>
  Claim C8, as amended. For every operating system and architecture of the closed sets,
  the name \<^verbatim>\<open>update_<os>_<arch>\<close>, alone or followed by a suffix that starts with a dot
  and has no line feed, classifies as exactly that pair, and is an update asset.
  Whenever the classifier returns a pair for any text at all, the text is an update
  asset, the pair lies in the closed sets and the text begins with
  \<^verbatim>\<open>update_<os>_<arch>\<close> for that very pair. A text that is not an update asset
  gets the error \<open>CouldNotFindAssetInfo\<close>.
\<close>

theorem getAssetInfo_round_trip:
  "(os \<in> {''darwin'', ''windows'', ''linux''} \<and> arch \<in> {''arm'', ''386'', ''amd64''} \<and>
    (suffix = [] \<or> hd suffix = CHR ''.'') \<and> CHR 0x0A \<notin> set suffix \<longrightarrow>
      getAssetInfo (''update_'' @ os @ ''_'' @ arch @ suffix) = Inr \<lparr>OS = os, Arch = arch\<rparr> \<and>
      isUpdateAsset (''update_'' @ os @ ''_'' @ arch @ suffix)) \<and>
   (getAssetInfo s = Inr info \<longrightarrow>
      isUpdateAsset s \<and>
      OS info \<in> {''darwin'', ''windows'', ''linux''} \<and> Arch info \<in> {''arm'', ''386'', ''amd64''} \<and>
      (\<exists>rest. s = ''update_'' @ OS info @ ''_'' @ Arch info @ rest \<and> CHR 0x0A \<notin> set rest)) \<and>
   (\<not> isUpdateAsset s \<longrightarrow> getAssetInfo s = Inl CouldNotFindAssetInfo)"
proof (intro conjI impI)
  assume a: "os \<in> {''darwin'', ''windows'', ''linux''} \<and> arch \<in> {''arm'', ''386'', ''amd64''} \<and>
    (suffix = [] \<or> hd suffix = CHR ''.'') \<and> CHR 0x0A \<notin> set suffix"
  then have alt: "(os, arch) \<in> set re_alternatives" and t: "re_tail suffix"
    by (simp_all add: re_alternatives_mem re_tail_def)
  let ?s = "''update_'' @ os @ ''_'' @ arch @ suffix"
  have m: "FindStringSubmatch ?s = [?s, os, arch]" by (rule first_match [OF alt t])
  then show "isUpdateAsset ?s" by (simp add: isUpdateAsset_iff)
  from getAssetInfo_cases [of ?s] m
  show "getAssetInfo ?s = Inr \<lparr>OS = os, Arch = arch\<rparr>" by auto
next
  assume r: "getAssetInfo s = Inr info"
  with getAssetInfo_cases [of s] obtain os arch where
    i: "info = \<lparr>OS = os, Arch = arch\<rparr>" and m: "FindStringSubmatch s = [s, os, arch]"
    and alt: "(os, arch) \<in> set re_alternatives" and acc: "re_accepts s (os, arch)"
    by auto
  from m show "isUpdateAsset s" by (simp add: isUpdateAsset_iff)
  from alt i show "OS info \<in> {''darwin'', ''windows'', ''linux''}"
    by (simp only: re_alternatives_mem AssetInfo.simps)
  from alt i show "Arch info \<in> {''arm'', ''386'', ''amd64''}"
    by (simp only: re_alternatives_mem AssetInfo.simps)
  from acc i show "\<exists>rest. s = ''update_'' @ OS info @ ''_'' @ Arch info @ rest \<and> CHR 0x0A \<notin> set rest"
    by (simp add: re_accepts_iff re_tail_def)
next
  assume "\<not> isUpdateAsset s"
  then have "FindStringSubmatch s = []" by (simp add: isUpdateAsset_iff)
  with getAssetInfo_cases [of s] show "getAssetInfo s = Inl CouldNotFindAssetInfo" by auto
qed

theorem getAssetInfo_round_trip_witness:
  "getAssetInfo ''update_linux_amd64'' = Inr \<lparr>OS = ''linux'', Arch = ''amd64''\<rparr> \<and>
   isUpdateAsset ''update_linux_amd64'' \<and>
   getAssetInfo ''update_darwin_386.tar.gz'' = Inr \<lparr>OS = ''darwin'', Arch = ''386''\<rparr> \<and>
   \<not> isUpdateAsset ''README.md'' \<and> getAssetInfo ''README.md'' = Inl CouldNotFindAssetInfo"
proof -
  have n: "\<not> isUpdateAsset ''README.md''"
    by (simp add: isUpdateAsset_iff FindStringSubmatch_def re_alternatives_def re_accepts_def)
  from getAssetInfo_round_trip [of "''linux''" "''amd64''" "[]" "''README.md''" undefined]
    getAssetInfo_round_trip [of "''darwin''" "''386''" "''.tar.gz''" "''README.md''" undefined] n
  show ?thesis by simp
qed

text \<open>
  Claim C8 as stated says that every text other than the nine names
  \<^verbatim>\<open>update_<os>_<arch>\<close> fails or is no update asset. The pattern accepts a suffix on
  purpose, so \<^verbatim>\<open>update_linux_amd64.zip\<close> is another text that classifies; and so does
  \<^verbatim>\<open>update_linux_arm64\<close>, as \<open>(linux, arm)\<close>.
\<close>

theorem getAssetInfo_round_trip_counterexample:
  "''update_linux_amd64.zip'' \<notin> set (map (\<lambda>(os, arch). ''update_'' @ os @ ''_'' @ arch) re_alternatives) \<and>
   isUpdateAsset ''update_linux_amd64.zip'' \<and>
   getAssetInfo ''update_linux_amd64.zip'' = Inr \<lparr>OS = ''linux'', Arch = ''amd64''\<rparr> \<and>
   ''update_linux_arm64'' \<notin> set (map (\<lambda>(os, arch). ''update_'' @ os @ ''_'' @ arch) re_alternatives) \<and>
   isUpdateAsset ''update_linux_arm64'' \<and>
   getAssetInfo ''update_linux_arm64'' = Inr \<lparr>OS = ''linux'', Arch = ''arm''\<rparr>"
  by (simp add: getAssetInfo_def isUpdateAsset_iff FindStringSubmatch_def re_alternatives_def
      re_accepts_def re_tail_def OS_Windows_def OS_Linux_def OS_Darwin_def
      Arch_X64_def Arch_X86_def Arch_ARM_def)

text \<open>
  Claim C7, as amended. \<^verbatim>\<open>getAssetInfo\<close> returns the errors \<open>UnknownOS\<close> and
  \<open>UnknownArchitecture\<close> for no text at all: the pattern admits only the closed sets, so
  the two tests behind it never fire. A name \<^verbatim>\<open>update_<os>_<arch>\<close> whose \<^verbatim>\<open><os>\<close>
  has no underscore, and whose \<^verbatim>\<open><os>\<close> is outside the closed set or whose
  \<^verbatim>\<open><arch>\<close> begins with none of \<^verbatim>\<open>arm\<close>, \<^verbatim>\<open>386\<close>, \<^verbatim>\<open>amd64\<close>, is rejected with
  the generic \<open>CouldNotFindAssetInfo\<close> and is not an update asset.
\<close>

theorem getAssetInfo_unknown_platform:
  "getAssetInfo s \<noteq> Inl (UnknownOS x) \<and> getAssetInfo s \<noteq> Inl (UnknownArchitecture x) \<and>
   (CHR ''_'' \<notin> set os \<and>
    (os \<notin> {''darwin'', ''windows'', ''linux''} \<or>
     (\<forall>a \<in> {''arm'', ''386'', ''amd64''}. take (length a) arch \<noteq> a)) \<longrightarrow>
      getAssetInfo (''update_'' @ os @ ''_'' @ arch) = Inl CouldNotFindAssetInfo \<and>
      \<not> isUpdateAsset (''update_'' @ os @ ''_'' @ arch))"
proof (intro conjI impI)
  show "getAssetInfo s \<noteq> Inl (UnknownOS x)" using getAssetInfo_cases [of s] by auto
  show "getAssetInfo s \<noteq> Inl (UnknownArchitecture x)" using getAssetInfo_cases [of s] by auto
next
  let ?s = "''update_'' @ os @ ''_'' @ arch"
  assume a: "CHR ''_'' \<notin> set os \<and>
    (os \<notin> {''darwin'', ''windows'', ''linux''} \<or>
     (\<forall>a \<in> {''arm'', ''386'', ''amd64''}. take (length a) arch \<noteq> a))"
  have none: "FindStringSubmatch ?s = []"
  proof (rule ccontr)
    assume "FindStringSubmatch ?s \<noteq> []"
    with FindStringSubmatch_cases [of ?s] obtain os' arch' where
      alt: "(os', arch') \<in> set re_alternatives" and acc: "re_accepts ?s (os', arch')"
      by auto
    from alt have os': "os' \<in> {''darwin'', ''windows'', ''linux''}"
      and arch': "arch' \<in> {''arm'', ''386'', ''amd64''}"
      by (simp_all only: re_alternatives_mem)
    from acc obtain rest where "?s = ''update_'' @ os' @ ''_'' @ arch' @ rest"
      unfolding re_accepts_iff by blast
    then have eq: "os @ CHR ''_'' # arch = os' @ CHR ''_'' # (arch' @ rest)" by simp
    from a have "CHR ''_'' \<notin> set os" by simp
    from prefix_upto_sep [OF eq this os_no_sep [OF os']] have o: "os = os'" .
    with eq have "arch = arch' @ rest" by simp
    then have "take (length arch') arch = arch'" by simp
    with a o os' arch' show False by blast
  qed
  with getAssetInfo_cases [of ?s] show "getAssetInfo ?s = Inl CouldNotFindAssetInfo" by auto
  from none show "\<not> isUpdateAsset ?s" by (simp add: isUpdateAsset_iff)
qed

theorem getAssetInfo_unknown_platform_witness:
  "getAssetInfo ''update_freebsd_amd64'' = Inl CouldNotFindAssetInfo \<and>
   \<not> isUpdateAsset ''update_freebsd_amd64'' \<and>
   getAssetInfo ''update_linux_mips'' = Inl CouldNotFindAssetInfo \<and>
   getAssetInfo ''update_freebsd_amd64'' \<noteq> Inl (UnknownOS ''freebsd'') \<and>
   getAssetInfo ''update_linux_mips'' \<noteq> Inl (UnknownArchitecture ''mips'')"
  using getAssetInfo_unknown_platform [of "''update_freebsd_amd64''" "''freebsd''" "''freebsd''" "''amd64''"]
    getAssetInfo_unknown_platform [of "''update_linux_mips''" "''mips''" "''linux''" "''mips''"]
  by simp

text \<open>
  Claim C7 as stated expects \<open>UnknownOS\<close> for \<^verbatim>\<open>update_freebsd_amd64\<close> and
  \<open>UnknownArchitecture\<close> for \<^verbatim>\<open>update_linux_mips\<close>; both get the generic error.
\<close>

theorem getAssetInfo_unknown_platform_counterexample:
  "getAssetInfo ''update_freebsd_amd64'' = Inl CouldNotFindAssetInfo \<and>
   getAssetInfo ''update_freebsd_amd64'' \<noteq> Inl (UnknownOS ''freebsd'') \<and>
   getAssetInfo ''update_linux_mips'' = Inl CouldNotFindAssetInfo \<and>
   getAssetInfo ''update_linux_mips'' \<noteq> Inl (UnknownArchitecture ''mips'')"
  by (simp add: getAssetInfo_def FindStringSubmatch_def re_alternatives_def re_accepts_def)

section \<open>The order of versions\<close>

lemma PRVersion_Compare_refl: "PRVersion_Compare x x = 0"
  by (cases x) simp_all

lemma PRVersion_Compare_eq: "PRVersion_Compare x y = 0 \<Longrightarrow> x = y"
  by (cases x; cases y) (simp_all split: if_splits)

lemma PRVersion_Compare_trans:
  "PRVersion_Compare x y = 1 \<Longrightarrow> PRVersion_Compare y z = 1 \<Longrightarrow> PRVersion_Compare x z = 1"
  by (cases x; cases y; cases z) (auto split: if_splits)

lemma Pre_Compare_refl: "Pre_Compare xs xs = 0"
  by (induction xs) (simp_all add: PRVersion_Compare_refl)

lemma Pre_Compare_trans:
  "Pre_Compare xs ys = 1 \<Longrightarrow> Pre_Compare ys zs = 1 \<Longrightarrow> Pre_Compare xs zs = 1"
proof (induction xs ys arbitrary: zs rule: Pre_Compare.induct)
  case 1
  then show ?case by simp
next
  case (2 y ys)
  then show ?case by simp
next
  case (3 x xs)
  then show ?case by (cases zs) simp_all
next
  case (4 x xs y ys)
  show ?case
  proof (cases zs)
    case Nil
    then show ?thesis by simp
  next
    case (Cons z zs')
    consider (eq1) "PRVersion_Compare x y = 0" | (gt1) "PRVersion_Compare x y = 1"
      using "4.prems"(1) by (auto simp: Let_def split: if_splits)
    then show ?thesis
    proof cases
      case eq1
      then have xy: "x = y" by (rule PRVersion_Compare_eq)
      from eq1 "4.prems"(1) have r1: "Pre_Compare xs ys = 1" by (simp add: Let_def)
      consider (eq2) "PRVersion_Compare y z = 0" | (gt2) "PRVersion_Compare y z = 1"
        using "4.prems"(2) Cons by (auto simp: Let_def split: if_splits)
      then show ?thesis
      proof cases
        case eq2
        with "4.prems"(2) Cons have "Pre_Compare ys zs' = 1" by (simp add: Let_def)
        from "4.IH" [OF refl eq1 r1 this] have "Pre_Compare xs zs' = 1" .
        with eq2 xy Cons show ?thesis by (simp add: Let_def)
      next
        case gt2
        with xy Cons show ?thesis by (simp add: Let_def)
      qed
    next
      case gt1
      consider (eq2) "PRVersion_Compare y z = 0" | (gt2) "PRVersion_Compare y z = 1"
        using "4.prems"(2) Cons by (auto simp: Let_def split: if_splits)
      then show ?thesis
      proof cases
        case eq2
        then have "y = z" by (rule PRVersion_Compare_eq)
        with gt1 Cons show ?thesis by (simp add: Let_def)
      next
        case gt2
        from PRVersion_Compare_trans [OF gt1 gt2] Cons show ?thesis by (simp add: Let_def)
      qed
    qed
  qed
qed

lemma Compare_refl: "Compare v v = 0"
  by (simp add: Compare_def Pre_Compare_refl)

lemma Pre_Compare_range: "Pre_Compare xs ys \<in> {- 1, 0, 1}"
  by (induction xs ys rule: Pre_Compare.induct) (auto simp: Let_def)

lemma Compare_range: "Compare v w \<in> {- 1, 0, 1}"
  using Pre_Compare_range [of "Version_Pre v" "Version_Pre w"]
  by (simp add: Compare_def)

lemma LTE_iff_not_GT: "LTE v w \<longleftrightarrow> \<not> GT v w"
  using Compare_range [of v w] by (auto simp: LTE_def GT_def)

lemma GT_irrefl: "\<not> GT v v"
  by (simp add: GT_def Compare_refl)

lemma LTE_refl: "LTE v v"
  by (simp add: LTE_def Compare_refl)

lemma GT_trans: "GT a b \<Longrightarrow> GT b c \<Longrightarrow> GT a c"
  unfolding GT_def Compare_def
  by (auto split: if_splits dest: Pre_Compare_trans)

section \<open>Properties of the update resolver\<close>

lemma tags_override:
  "(case Params_Tags p0 of
      None \<Rightarrow> p0
    | Some tags \<Rightarrow>
        (let p1 = (if tag tags ''os'' \<noteq> '''' then p0\<lparr>Params_OS := tag tags ''os''\<rparr> else p0)
         in if tag tags ''arch'' \<noteq> '''' then p1\<lparr>Params_Arch := tag tags ''arch''\<rparr> else p1))
   = p0\<lparr>Params_OS := query_OS p0, Params_Arch := query_Arch p0\<rparr>"
  by (simp add: query_OS_def query_Arch_def Let_def split: option.split)

lemma body_params:
  "snd (CheckForUpdate_body e g p) = p\<lparr>Params_OS := query_OS p, Params_Arch := query_Arch p\<rparr>"
  unfolding CheckForUpdate_body_def tags_override
  by (simp add: Let_def split: sum.split)

lemma body_outcome:
  "fst (CheckForUpdate_body e g p) =
     (case semver_Parse e (Params_AppVersion p) of
        Inl err \<Rightarrow> Returns (Inl (BadVersionString err))
      | Inr appVersion \<Rightarrow>
          if Params_Checksum p = '''' then Returns (Inl ChecksumMustNotBeNil)
          else if query_OS p = '''' then Returns (Inl OSIsRequired)
          else if query_Arch p = '''' then Returns (Inl ArchIsRequired)
          else
            (case getProductUpdate g (query_OS p) (query_Arch p) of
               Inl err \<Rightarrow> Returns (Inl (CouldNotLookupForUpdates err))
             | Inr update \<Rightarrow>
                 if LTE (Asset_v update) appVersion then Returns (Inl ErrNoUpdateAvailable)
                 else
                   (case lookupAssetWithChecksum e g (query_OS p) (query_Arch p) (Params_Checksum p) of
                      Inl err \<Rightarrow>
                        Returns (Inr \<lparr>Result_Initiative = INITIATIVE_AUTO,
                                      Result_URL = Asset_URL update,
                                      Result_PatchURL = '''',
                                      Result_PatchType = PATCHTYPE_NONE,
                                      Result_Version = Version_String (Asset_v update),
                                      Result_Checksum = Asset_Checksum update,
                                      Result_Signature = Asset_Signature update\<rparr>)
                    | Inr current \<Rightarrow>
                        (case generatePatch e (Asset_URL current) (Asset_URL update)
                                (assetDir g) (patchDir g) of
                           Inl err \<Rightarrow> Returns (Inl (UnableToGeneratePatch err))
                         | Inr patch \<Rightarrow>
                             Returns (Inr \<lparr>Result_Initiative = INITIATIVE_AUTO,
                                           Result_URL = Asset_URL update,
                                           Result_PatchURL = Patch_File patch,
                                           Result_PatchType = PATCHTYPE_BSDIFF,
                                           Result_Version = Version_String (Asset_v update),
                                           Result_Checksum = Asset_Checksum update,
                                           Result_Signature = Asset_Signature update\<rparr>)))))"
  unfolding CheckForUpdate_body_def tags_override
  by (simp add: Let_def split: sum.split)

lemma CheckForUpdate_Some:
  "CheckForUpdate e g (Some p) =
     (fst (CheckForUpdate_body e g (if Params_Version p < 1 then p\<lparr>Params_Version := 1\<rparr> else p)),
      Some (snd (CheckForUpdate_body e g (if Params_Version p < 1 then p\<lparr>Params_Version := 1\<rparr> else p))))"
  by (simp add: CheckForUpdate_def Let_def split: prod.split)

lemma query_coerced:
  "query_OS (p\<lparr>Params_Version := n\<rparr>) = query_OS p"
  "query_Arch (p\<lparr>Params_Version := n\<rparr>) = query_Arch p"
  by (simp_all add: query_OS_def query_Arch_def split: option.split)

lemma body_outcome_cong:
  assumes "Params_AppVersion p1 = Params_AppVersion p" "Params_Checksum p1 = Params_Checksum p"
    "query_OS p1 = query_OS p" "query_Arch p1 = query_Arch p"
  shows "fst (CheckForUpdate_body e g p1) = fst (CheckForUpdate_body e g p)"
  by (simp only: body_outcome assms)

lemma CheckForUpdate_outcome:
  "fst (CheckForUpdate e g (Some p)) = fst (CheckForUpdate_body e g p)"
proof (cases "Params_Version p < 1")
  case True
  then have "fst (CheckForUpdate e g (Some p)) = fst (CheckForUpdate_body e g (p\<lparr>Params_Version := 1\<rparr>))"
    by (simp add: CheckForUpdate_Some)
  also have "\<dots> = fst (CheckForUpdate_body e g p)"
    by (rule body_outcome_cong) (simp_all add: query_coerced)
  finally show ?thesis .
next
  case False
  then show ?thesis by (simp add: CheckForUpdate_Some)
qed

lemma range_values_subset: "set (range_values e m) \<subseteq> ran m"
  by (auto simp: range_values_def List.map_filter_def ran_def)

lemma lookup_via_versionsAt:
  assumes "versionsAt g os arch ver = Some a"
  shows "lookupAssetWithChecksum e g os arch c =
           (case find (\<lambda>a. Asset_Checksum a = c) (range_values e (versionsAt g os arch)) of
              Some a \<Rightarrow> Inr a
            | None \<Rightarrow> Inl NoMatchingChecksum)"
  using assms
  by (auto simp: lookupAssetWithChecksum_def versionsAt_def split: option.splits)

lemma lookup_no_match:
  assumes "\<forall>a \<in> ran (versionsAt g os arch). Asset_Checksum a \<noteq> c"
  shows "\<exists>err. lookupAssetWithChecksum e g os arch c = Inl err"
proof (cases "versionsAt g os arch = Map.empty")
  case True
  then show ?thesis
    by (auto simp: lookupAssetWithChecksum_def versionsAt_def range_values_def
        List.map_filter_def split: option.splits)
next
  case False
  then obtain ver a where va: "versionsAt g os arch ver = Some a" by fastforce
  have "find (\<lambda>a. Asset_Checksum a = c) (range_values e (versionsAt g os arch)) = None"
    using assms range_values_subset [of e "versionsAt g os arch"]
    by (auto simp: find_None_iff)
  then show ?thesis by (simp add: lookup_via_versionsAt [OF va])
qed

lemma sample_versions:
  "versionsAt sample_catalog ''linux'' ''amd64'' =
     [''1.0.0'' \<mapsto> sample_asset ''linux'' (semver 1 0 0) ''u100'' ''c0'',
      ''1.1.0'' \<mapsto> sample_asset ''linux'' (semver 1 1 0) ''u110'' ''c0'',
      ''2.0.0'' \<mapsto> sample_asset ''linux'' (semver 2 0 0) ''u200'' ''c2'']"
  by (simp add: versionsAt_def sample_catalog_def sample_manager_def NewReleaseManager_def)

lemma sample_latest:
  "getProductUpdate sample_catalog ''linux'' ''amd64'' =
     Inr (sample_asset ''linux'' (semver 2 0 0) ''u200'' ''c2'')"
  by (simp add: getProductUpdate_def sample_catalog_def sample_manager_def NewReleaseManager_def)

lemma sample_range:
  "range_values (sample_env pages) (versionsAt sample_catalog ''linux'' ''amd64'') =
     [sample_asset ''linux'' (semver 1 0 0) ''u100'' ''c0'',
      sample_asset ''linux'' (semver 1 1 0) ''u110'' ''c0'',
      sample_asset ''linux'' (semver 2 0 0) ''u200'' ''c2'']"
  by (simp add: sample_versions range_values_def List.map_filter_def sample_env_def)

lemma sample_query:
  "query_OS (sample_params app c) = ''linux''" "query_Arch (sample_params app c) = ''amd64''"
  "Params_Checksum (sample_params app c) = c" "Params_AppVersion (sample_params app c) = app"
  by (simp_all add: query_OS_def query_Arch_def sample_params_def)

lemma sample_parse:
  "semver_Parse (sample_env pages) ''1.0.0'' = Inr (semver 1 0 0)"
  "semver_Parse (sample_env pages) ''1.1.0'' = Inr (semver 1 1 0)"
  "semver_Parse (sample_env pages) ''2.0.0'' = Inr (semver 2 0 0)"
  by (simp_all add: sample_env_def sample_Parse_def)

text \<open>
  Claim C2. Called with the nil pointer, \<^verbatim>\<open>CheckForUpdate\<close> panics: it reads
  \<^verbatim>\<open>p.Version\<close> before it tests \<^verbatim>\<open>p == nil\<close>. The error \<open>ExpectingParams\<close> that the
  test was written to return comes out for no argument, nil or not. With params that are
  not nil the call does not panic.
\<close>

theorem CheckForUpdate_nil_params:
  "CheckForUpdate e g None = (Panic, None) \<and>
   fst (CheckForUpdate e g q) \<noteq> Returns (Inl ExpectingParams) \<and>
   fst (CheckForUpdate e g (Some p)) \<noteq> Panic"
proof (intro conjI)
  show "CheckForUpdate e g None = (Panic, None)" by (simp add: CheckForUpdate_def)
  have some: "fst (CheckForUpdate e g (Some p')) \<noteq> Returns (Inl ExpectingParams) \<and>
              fst (CheckForUpdate e g (Some p')) \<noteq> Panic" for p'
    unfolding CheckForUpdate_outcome body_outcome
    by (simp split: sum.split)
  then show "fst (CheckForUpdate e g (Some p)) \<noteq> Panic" by simp
  show "fst (CheckForUpdate e g q) \<noteq> Returns (Inl ExpectingParams)"
  proof (cases q)
    case None
    then show ?thesis by (simp add: CheckForUpdate_def)
  next
    case (Some p')
    with some show ?thesis by simp
  qed
qed

text \<open>
  Claim C10. What the pointer refers to when \<^verbatim>\<open>CheckForUpdate\<close> ends, whatever the
  call returns: the params it was given, with \<open>Version\<close> set to 1 when it was below 1, and
  with \<open>OS\<close> and \<open>Arch\<close> overwritten by the tags \<^verbatim>\<open>os\<close> and \<^verbatim>\<open>arch\<close> that are not
  empty. The other fields are as they were.
\<close>

theorem CheckForUpdate_frame:
  "snd (CheckForUpdate e g (Some p)) =
     Some (p\<lparr>Params_Version := (if Params_Version p < 1 then 1 else Params_Version p),
              Params_OS := query_OS p, Params_Arch := query_Arch p\<rparr>)"
  by (simp add: CheckForUpdate_Some body_params query_coerced)

theorem CheckForUpdate_frame_witness:
  "snd (CheckForUpdate (sample_env []) sample_catalog
          (Some \<lparr>Params_Version = 0, Params_AppVersion = ''1.0.0'', Params_OS = '''',
                 Params_Arch = ''386'', Params_Checksum = ''c0'',
                 Params_Tags = Some [''os'' \<mapsto> ''darwin'']\<rparr>)) =
     Some \<lparr>Params_Version = 1, Params_AppVersion = ''1.0.0'', Params_OS = ''darwin'',
           Params_Arch = ''386'', Params_Checksum = ''c0'',
           Params_Tags = Some [''os'' \<mapsto> ''darwin'']\<rparr>"
  using CheckForUpdate_frame [of "sample_env []" sample_catalog
          "\<lparr>Params_Version = 0, Params_AppVersion = ''1.0.0'', Params_OS = '''',
            Params_Arch = ''386'', Params_Checksum = ''c0'',
            Params_Tags = Some [''os'' \<mapsto> ''darwin'']\<rparr>"]
  by (simp add: query_OS_def query_Arch_def tag_def)

text \<open>
  Claim C5. For a query that passes the validation and whose platform has a latest
  asset, \<^verbatim>\<open>CheckForUpdate\<close> returns the sentinel \<open>ErrNoUpdateAvailable\<close>, a value
  distinct from every other error, exactly when the latest version is below or equal to
  the version of the client; versions that compare equal give no update.
\<close>

theorem CheckForUpdate_no_update:
  assumes "semver_Parse e (Params_AppVersion p) = Inr appVersion"
    and "Params_Checksum p \<noteq> ''''" and "query_OS p \<noteq> ''''" and "query_Arch p \<noteq> ''''"
    and "getProductUpdate g (query_OS p) (query_Arch p) = Inr update"
  shows "(fst (CheckForUpdate e g (Some p)) = Returns (Inl ErrNoUpdateAvailable)
            \<longleftrightarrow> LTE (Asset_v update) appVersion) \<and>
         (EQ (Asset_v update) appVersion \<longrightarrow>
            fst (CheckForUpdate e g (Some p)) = Returns (Inl ErrNoUpdateAvailable))"
proof -
  have iff: "fst (CheckForUpdate e g (Some p)) = Returns (Inl ErrNoUpdateAvailable)
            \<longleftrightarrow> LTE (Asset_v update) appVersion"
    unfolding CheckForUpdate_outcome body_outcome using assms
    by (simp split: sum.split)
  moreover have "EQ (Asset_v update) appVersion \<Longrightarrow> LTE (Asset_v update) appVersion"
    by (simp add: EQ_def LTE_def)
  ultimately show ?thesis by blast
qed

theorem CheckForUpdate_no_update_witness:
  "semver_Parse (sample_env []) (Params_AppVersion (sample_params ''2.0.0'' ''c2'')) = Inr (semver 2 0 0) \<and>
   semver_Parse (sample_env []) (Params_AppVersion (sample_params ''1.0.0'' ''c0'')) = Inr (semver 1 0 0) \<and>
   getProductUpdate sample_catalog ''linux'' ''amd64'' =
     Inr (sample_asset ''linux'' (semver 2 0 0) ''u200'' ''c2'') \<and>
   LTE (semver 2 0 0) (semver 2 0 0) \<and> \<not> LTE (semver 2 0 0) (semver 1 0 0) \<and>
   fst (CheckForUpdate (sample_env []) sample_catalog (Some (sample_params ''2.0.0'' ''c2''))) =
     Returns (Inl ErrNoUpdateAvailable) \<and>
   fst (CheckForUpdate (sample_env []) sample_catalog (Some (sample_params ''1.0.0'' ''c0''))) \<noteq>
     Returns (Inl ErrNoUpdateAvailable)"
proof -
  let ?latest = "sample_asset ''linux'' (semver 2 0 0) ''u200'' ''c2''"
  have p2: "semver_Parse (sample_env []) (Params_AppVersion (sample_params ''2.0.0'' ''c2'')) = Inr (semver 2 0 0)"
    and p1: "semver_Parse (sample_env []) (Params_AppVersion (sample_params ''1.0.0'' ''c0'')) = Inr (semver 1 0 0)"
    by (simp_all add: sample_query sample_parse)
  have c: "Params_Checksum (sample_params ''2.0.0'' ''c2'') \<noteq> ''''"
    "Params_Checksum (sample_params ''1.0.0'' ''c0'') \<noteq> ''''"
    by (simp_all add: sample_query)
  have os: "query_OS (sample_params app ch) \<noteq> ''''" and arch: "query_Arch (sample_params app ch) \<noteq> ''''"
    for app ch
    by (simp_all add: sample_query)
  have u: "getProductUpdate sample_catalog (query_OS (sample_params app ch)) (query_Arch (sample_params app ch)) =
     Inr ?latest" for app ch
    by (simp add: sample_query sample_latest)
  have v: "Asset_v ?latest = semver 2 0 0" by (simp add: sample_asset_def)
  have l: "LTE (semver 2 0 0) (semver 2 0 0)" "\<not> LTE (semver 2 0 0) (semver 1 0 0)"
    by (simp_all add: LTE_def Compare_def semver_def)
  from CheckForUpdate_no_update [OF p2 c(1) os arch u] CheckForUpdate_no_update [OF p1 c(2) os arch u]
    p1 p2 l sample_latest
  show ?thesis by (simp add: v)
qed

text \<open>
  Claim C6. For a query that passes the validation, with a latest asset strictly newer
  than the client and no asset of the platform carrying the client's checksum,
  \<^verbatim>\<open>CheckForUpdate\<close> returns a result with initiative \<^verbatim>\<open>auto\<close>, the URL, version
  string, checksum and signature of the latest asset, no patch type and no patch URL.
\<close>

theorem CheckForUpdate_full_update:
  assumes "semver_Parse e (Params_AppVersion p) = Inr appVersion"
    and "Params_Checksum p \<noteq> ''''" and "query_OS p \<noteq> ''''" and "query_Arch p \<noteq> ''''"
    and "getProductUpdate g (query_OS p) (query_Arch p) = Inr update"
    and "GT (Asset_v update) appVersion"
    and "\<forall>a \<in> ran (versionsAt g (query_OS p) (query_Arch p)). Asset_Checksum a \<noteq> Params_Checksum p"
  shows "fst (CheckForUpdate e g (Some p)) =
           Returns (Inr \<lparr>Result_Initiative = ''auto'',
                         Result_URL = Asset_URL update,
                         Result_PatchURL = '''',
                         Result_PatchType = '''',
                         Result_Version = Version_String (Asset_v update),
                         Result_Checksum = Asset_Checksum update,
                         Result_Signature = Asset_Signature update\<rparr>)"
proof -
  from assms(6) have n: "\<not> LTE (Asset_v update) appVersion" by (simp add: LTE_iff_not_GT)
  from lookup_no_match [OF assms(7)] obtain err where
    l: "lookupAssetWithChecksum e g (query_OS p) (query_Arch p) (Params_Checksum p) = Inl err"
    by blast
  show ?thesis
    unfolding CheckForUpdate_outcome body_outcome
    using assms(1-5) n l by (simp add: INITIATIVE_AUTO_def PATCHTYPE_NONE_def)
qed

theorem CheckForUpdate_full_update_witness:
  "semver_Parse (sample_env []) (Params_AppVersion (sample_params ''1.0.0'' ''zz'')) = Inr (semver 1 0 0) \<and>
   getProductUpdate sample_catalog ''linux'' ''amd64'' =
     Inr (sample_asset ''linux'' (semver 2 0 0) ''u200'' ''c2'') \<and>
   GT (semver 2 0 0) (semver 1 0 0) \<and>
   fst (CheckForUpdate (sample_env []) sample_catalog (Some (sample_params ''1.0.0'' ''zz''))) =
     Returns (Inr \<lparr>Result_Initiative = ''auto'', Result_URL = ''u200'', Result_PatchURL = '''',
                   Result_PatchType = '''', Result_Version = ''2.0.0'', Result_Checksum = ''c2'',
                   Result_Signature = ''5a''\<rparr>)"
proof -
  let ?latest = "sample_asset ''linux'' (semver 2 0 0) ''u200'' ''c2''"
  let ?p = "sample_params ''1.0.0'' ''zz''"
  have p1: "semver_Parse (sample_env []) (Params_AppVersion ?p) = Inr (semver 1 0 0)"
    by (simp add: sample_query sample_parse)
  have c: "Params_Checksum ?p \<noteq> ''''" and os: "query_OS ?p \<noteq> ''''" and arch: "query_Arch ?p \<noteq> ''''"
    by (simp_all add: sample_query)
  have u: "getProductUpdate sample_catalog (query_OS ?p) (query_Arch ?p) = Inr ?latest"
    by (simp add: sample_query sample_latest)
  have gt: "GT (semver 2 0 0) (semver 1 0 0)" by (simp add: GT_def Compare_def semver_def)
  then have g: "GT (Asset_v ?latest) (semver 1 0 0)" by (simp add: sample_asset_def)
  have n: "\<forall>a \<in> ran (versionsAt sample_catalog (query_OS ?p) (query_Arch ?p)).
             Asset_Checksum a \<noteq> Params_Checksum ?p"
    by (auto simp: sample_query sample_versions ran_def sample_asset_def split: if_splits)
  have s: "Version_String (semver 2 0 0) = ''2.0.0''"
    by (simp add: Version_String_def semver_def decimal.simps)
  from CheckForUpdate_full_update [OF p1 c os arch u g n] p1 gt sample_latest
  show ?thesis by (simp add: sample_asset_def s)
qed

text \<open>
  Claim C9, as amended. When an asset of the platform carries the client's checksum, the
  lookup returns the first asset with that checksum in the order in which the runtime
  enumerates the map, an order the language leaves open: it is some asset of the platform
  with the client's checksum, whatever its version.
\<close>

theorem lookupAssetWithChecksum_selects:
  assumes "versionsAt g os arch ver = Some a" and "Asset_Checksum a = checksum"
    and "ver \<in> set (rangeOrder e (versionsAt g os arch))"
  shows "\<exists>b. lookupAssetWithChecksum e g os arch checksum = Inr b \<and>
             find (\<lambda>a. Asset_Checksum a = checksum) (range_values e (versionsAt g os arch)) = Some b \<and>
             b \<in> ran (versionsAt g os arch) \<and> Asset_Checksum b = checksum"
proof -
  have "a \<in> set (range_values e (versionsAt g os arch))"
    using assms(1,3) by (force simp: range_values_def List.map_filter_def)
  with assms(2) obtain b where
    f: "find (\<lambda>a. Asset_Checksum a = checksum) (range_values e (versionsAt g os arch)) = Some b"
    by (cases "find (\<lambda>a. Asset_Checksum a = checksum) (range_values e (versionsAt g os arch))")
       (auto simp: find_None_iff)
  then have "b \<in> set (range_values e (versionsAt g os arch))" "Asset_Checksum b = checksum"
    by (auto simp: find_Some_iff)
  with range_values_subset [of e "versionsAt g os arch"] f lookup_via_versionsAt [OF assms(1), of e checksum]
  show ?thesis by auto
qed

theorem lookupAssetWithChecksum_selects_witness:
  "versionsAt sample_catalog ''linux'' ''amd64'' ''1.1.0'' =
     Some (sample_asset ''linux'' (semver 1 1 0) ''u110'' ''c0'') \<and>
   ''1.1.0'' \<in> set (rangeOrder (sample_env []) (versionsAt sample_catalog ''linux'' ''amd64'')) \<and>
   (\<exists>b. lookupAssetWithChecksum (sample_env []) sample_catalog ''linux'' ''amd64'' ''c0'' = Inr b \<and>
        b \<in> ran (versionsAt sample_catalog ''linux'' ''amd64'') \<and> Asset_Checksum b = ''c0'')"
proof -
  have v: "versionsAt sample_catalog ''linux'' ''amd64'' ''1.1.0'' =
     Some (sample_asset ''linux'' (semver 1 1 0) ''u110'' ''c0'')"
    by (simp add: sample_versions)
  have c: "Asset_Checksum (sample_asset ''linux'' (semver 1 1 0) ''u110'' ''c0'') = ''c0''"
    by (simp add: sample_asset_def)
  have r: "''1.1.0'' \<in> set (rangeOrder (sample_env []) (versionsAt sample_catalog ''linux'' ''amd64''))"
    by (simp add: sample_versions sample_env_def)
  from lookupAssetWithChecksum_selects [OF v c r] v r show ?thesis by blast
qed

text \<open>
  Claim C9 as stated asks for the newest version below the latest one. In the sample
  catalog versions \<^verbatim>\<open>1.0.0\<close> and \<^verbatim>\<open>1.1.0\<close> share the checksum \<^verbatim>\<open>c0\<close> and the
  latest is \<^verbatim>\<open>2.0.0\<close>; with the keys enumerated in ascending order the lookup returns
  the asset of \<^verbatim>\<open>1.0.0\<close>.
\<close>

theorem lookupAssetWithChecksum_selects_counterexample:
  "lookupAssetWithChecksum (sample_env []) sample_catalog ''linux'' ''amd64'' ''c0'' =
     Inr (sample_asset ''linux'' (semver 1 0 0) ''u100'' ''c0'') \<and>
   versionsAt sample_catalog ''linux'' ''amd64'' ''1.1.0'' =
     Some (sample_asset ''linux'' (semver 1 1 0) ''u110'' ''c0'') \<and>
   getProductUpdate sample_catalog ''linux'' ''amd64'' =
     Inr (sample_asset ''linux'' (semver 2 0 0) ''u200'' ''c2'') \<and>
   GT (semver 1 1 0) (semver 1 0 0) \<and> GT (semver 2 0 0) (semver 1 1 0)"
proof -
  have v: "versionsAt sample_catalog ''linux'' ''amd64'' ''1.1.0'' =
     Some (sample_asset ''linux'' (semver 1 1 0) ''u110'' ''c0'')"
    by (simp add: sample_versions)
  have "lookupAssetWithChecksum (sample_env []) sample_catalog ''linux'' ''amd64'' ''c0'' =
     Inr (sample_asset ''linux'' (semver 1 0 0) ''u100'' ''c0'')"
    by (simp add: lookup_via_versionsAt [OF v] sample_range) (simp add: sample_asset_def)
  moreover have "GT (semver 1 1 0) (semver 1 0 0)" "GT (semver 2 0 0) (semver 1 1 0)"
    by (simp_all add: GT_def Compare_def semver_def)
  ultimately show ?thesis using v sample_latest by simp
qed

section \<open>Properties of the catalog\<close>

lemma pushAsset_outcomes:
  assumes "pushAsset e os arch a0 g = (res, g')"
  shows "(res \<noteq> Returns None \<and> g' = g) \<or> (res = Panic \<and> latestAssetsMap g = None) \<or>
    (\<exists>checksumHex signature assets latest.
       res = Returns None \<and>
       updateAssetsMap g = Some assets \<and> latestAssetsMap g = Some latest \<and>
       g' = g\<lparr>updateAssetsMap :=
                Some (assets(os \<mapsto> (case assets os of None \<Rightarrow> Map.empty | Some m \<Rightarrow> m)(arch \<mapsto>
                  (case (case assets os of None \<Rightarrow> Map.empty | Some m \<Rightarrow> m) arch of
                     None \<Rightarrow> Map.empty | Some m \<Rightarrow> m)
                  (Version_String (Asset_v a0) \<mapsto>
                     a0\<lparr>OS := os, Arch := arch, Asset_Checksum := checksumHex,
                         Asset_Signature := signature\<rparr>)))),
              latestAssetsMap :=
                Some (case (case latest os of None \<Rightarrow> Map.empty | Some m \<Rightarrow> m) arch of
                        None \<Rightarrow>
                          latest(os \<mapsto> (case latest os of None \<Rightarrow> Map.empty | Some m \<Rightarrow> m)(arch \<mapsto>
                            a0\<lparr>OS := os, Arch := arch, Asset_Checksum := checksumHex,
                                Asset_Signature := signature\<rparr>))
                      | Some current \<Rightarrow>
                          if GT (Asset_v a0) (Asset_v current) then
                            latest(os \<mapsto> (case latest os of None \<Rightarrow> Map.empty | Some m \<Rightarrow> m)(arch \<mapsto>
                              a0\<lparr>OS := os, Arch := arch, Asset_Checksum := checksumHex,
                                  Asset_Signature := signature\<rparr>))
                          else latest(os \<mapsto> (case latest os of None \<Rightarrow> Map.empty | Some m \<Rightarrow> m)))\<rparr>)"
proof (cases "EQ (Asset_v a0) emptyVersion")
  case True
  with assms show ?thesis by (auto simp: pushAsset_def Let_def)
next
  case ne: False
  show ?thesis
  proof (cases "downloadAsset e (Asset_URL a0) (assetDir g)")
    case (Inl err)
    with assms ne show ?thesis by (auto simp: pushAsset_def Let_def)
  next
    case d: (Inr localfile)
    show ?thesis
    proof (cases "checksumForFile e localfile")
      case (Inl err)
      with assms ne d show ?thesis by (auto simp: pushAsset_def Let_def)
    next
      case (Inr c)
      then obtain checksumHex raw where c: "checksumForFile e localfile = Inr (checksumHex, raw)"
        by (cases c) auto
      show ?thesis
      proof (cases "signatureForFile e localfile")
        case (Inl err)
        with assms ne d c show ?thesis by (auto simp: pushAsset_def Let_def)
      next
        case s: (Inr signature)
        show ?thesis
        proof (cases "updateAssetsMap g")
          case None
          with assms ne d c s show ?thesis by (auto simp: pushAsset_def Let_def)
        next
          case u: (Some assets)
          show ?thesis
          proof (cases "latestAssetsMap g")
            case None
            with assms ne d c s u show ?thesis by (auto simp: pushAsset_def Let_def)
          next
            case l: (Some latest)
            have "res = Returns None \<and> g' = g\<lparr>updateAssetsMap :=
                Some (assets(os \<mapsto> (case assets os of None \<Rightarrow> Map.empty | Some m \<Rightarrow> m)(arch \<mapsto>
                  (case (case assets os of None \<Rightarrow> Map.empty | Some m \<Rightarrow> m) arch of
                     None \<Rightarrow> Map.empty | Some m \<Rightarrow> m)
                  (Version_String (Asset_v a0) \<mapsto>
                     a0\<lparr>OS := os, Arch := arch, Asset_Checksum := checksumHex,
                         Asset_Signature := signature\<rparr>)))),
              latestAssetsMap :=
                Some (case (case latest os of None \<Rightarrow> Map.empty | Some m \<Rightarrow> m) arch of
                        None \<Rightarrow>
                          latest(os \<mapsto> (case latest os of None \<Rightarrow> Map.empty | Some m \<Rightarrow> m)(arch \<mapsto>
                            a0\<lparr>OS := os, Arch := arch, Asset_Checksum := checksumHex,
                                Asset_Signature := signature\<rparr>))
                      | Some current \<Rightarrow>
                          if GT (Asset_v a0) (Asset_v current) then
                            latest(os \<mapsto> (case latest os of None \<Rightarrow> Map.empty | Some m \<Rightarrow> m)(arch \<mapsto>
                              a0\<lparr>OS := os, Arch := arch, Asset_Checksum := checksumHex,
                                  Asset_Signature := signature\<rparr>))
                          else latest(os \<mapsto> (case latest os of None \<Rightarrow> Map.empty | Some m \<Rightarrow> m)))\<rparr>"
              using assms ne d c s u l
              by (cases "(case latest os of None \<Rightarrow> Map.empty | Some m \<Rightarrow> m) arch")
                 (auto simp: pushAsset_def Let_def)
            with u l show ?thesis by blast
          qed
        qed
      qed
    qed
  qed
qed


lemma pushAsset_error_unchanged:
  "pushAsset e os arch a g = (Returns (Some err), g') \<Longrightarrow> g' = g"
  using pushAsset_outcomes [of e os arch a g "Returns (Some err)" g'] by auto

lemma pushAsset_effect:
  assumes "pushAsset e os arch a0 g = (Returns None, g')"
  shows "\<exists>asset. Asset_v asset = Asset_v a0 \<and>
           versionsAt g' os arch = (versionsAt g os arch)(Version_String (Asset_v a0) \<mapsto> asset) \<and>
           latestAt g' os arch =
             Some (case latestAt g os arch of
                     None \<Rightarrow> asset
                   | Some current \<Rightarrow> if GT (Asset_v a0) (Asset_v current) then asset else current) \<and>
           (\<forall>os' arch'. (os', arch') \<noteq> (os, arch) \<longrightarrow>
              versionsAt g' os' arch' = versionsAt g os' arch' \<and>
              latestAt g' os' arch' = latestAt g os' arch')"
proof -
  from pushAsset_outcomes [OF assms] obtain checksumHex signature assets latest where
    u: "updateAssetsMap g = Some assets" and l: "latestAssetsMap g = Some latest"
    and g': "g' = g\<lparr>updateAssetsMap :=
                Some (assets(os \<mapsto> (case assets os of None \<Rightarrow> Map.empty | Some m \<Rightarrow> m)(arch \<mapsto>
                  (case (case assets os of None \<Rightarrow> Map.empty | Some m \<Rightarrow> m) arch of
                     None \<Rightarrow> Map.empty | Some m \<Rightarrow> m)
                  (Version_String (Asset_v a0) \<mapsto>
                     a0\<lparr>OS := os, Arch := arch, Asset_Checksum := checksumHex,
                         Asset_Signature := signature\<rparr>)))),
              latestAssetsMap :=
                Some (case (case latest os of None \<Rightarrow> Map.empty | Some m \<Rightarrow> m) arch of
                        None \<Rightarrow>
                          latest(os \<mapsto> (case latest os of None \<Rightarrow> Map.empty | Some m \<Rightarrow> m)(arch \<mapsto>
                            a0\<lparr>OS := os, Arch := arch, Asset_Checksum := checksumHex,
                                Asset_Signature := signature\<rparr>))
                      | Some current \<Rightarrow>
                          if GT (Asset_v a0) (Asset_v current) then
                            latest(os \<mapsto> (case latest os of None \<Rightarrow> Map.empty | Some m \<Rightarrow> m)(arch \<mapsto>
                              a0\<lparr>OS := os, Arch := arch, Asset_Checksum := checksumHex,
                                  Asset_Signature := signature\<rparr>))
                          else latest(os \<mapsto> (case latest os of None \<Rightarrow> Map.empty | Some m \<Rightarrow> m)))\<rparr>"
    by auto
  let ?asset = "a0\<lparr>OS := os, Arch := arch, Asset_Checksum := checksumHex,
                         Asset_Signature := signature\<rparr>"
  have 1: "Asset_v ?asset = Asset_v a0" by simp
  have 2: "versionsAt g' os arch = (versionsAt g os arch)(Version_String (Asset_v a0) \<mapsto> ?asset)"
    by (simp add: g' u versionsAt_def split: option.split)
  have 3: "latestAt g' os arch =
             Some (case latestAt g os arch of
                     None \<Rightarrow> ?asset
                   | Some current \<Rightarrow> if GT (Asset_v a0) (Asset_v current) then ?asset else current)"
    by (simp add: g' l latestAt_def split: option.split)
  have 4: "versionsAt g' os' arch' = versionsAt g os' arch'" if "(os', arch') \<noteq> (os, arch)" for os' arch'
    using that by (auto simp: g' u versionsAt_def split: option.split)
  have 5: "latestAt g' os' arch' = latestAt g os' arch'" if "(os', arch') \<noteq> (os, arch)" for os' arch'
    using that by (auto simp: g' l latestAt_def split: option.split)
  from 1 2 3 4 5 show ?thesis by blast
qed

lemma latest_is_greatestI:
  assumes "\<And>os arch. latestAt g os arch = None \<Longrightarrow> versionsAt g os arch = Map.empty"
    and "\<And>os arch l. latestAt g os arch = Some l \<Longrightarrow>
           versionsAt g os arch (Version_String (Asset_v l)) \<noteq> None"
    and "\<And>os arch l ver a. latestAt g os arch = Some l \<Longrightarrow> versionsAt g os arch ver = Some a \<Longrightarrow>
           \<not> GT (Asset_v a) (Asset_v l)"
  shows "latest_is_greatest g"
  unfolding latest_is_greatest_def using assms by (auto split: option.split)

lemma latest_is_greatestD:
  assumes "latest_is_greatest g"
  shows "latestAt g os arch = None \<Longrightarrow> versionsAt g os arch = Map.empty"
    and "latestAt g os arch = Some l \<Longrightarrow> versionsAt g os arch (Version_String (Asset_v l)) \<noteq> None"
    and "latestAt g os arch = Some l \<Longrightarrow> versionsAt g os arch ver = Some a \<Longrightarrow>
           \<not> GT (Asset_v a) (Asset_v l)"
proof -
  from assms have *: "case latestAt g os arch of
          None \<Rightarrow> versionsAt g os arch = Map.empty
        | Some l \<Rightarrow>
            versionsAt g os arch (Version_String (Asset_v l)) \<noteq> None \<and>
            (\<forall>ver a. versionsAt g os arch ver = Some a \<longrightarrow> \<not> GT (Asset_v a) (Asset_v l))"
    unfolding latest_is_greatest_def by blast
  show "latestAt g os arch = None \<Longrightarrow> versionsAt g os arch = Map.empty" using * by simp
  show "latestAt g os arch = Some l \<Longrightarrow> versionsAt g os arch (Version_String (Asset_v l)) \<noteq> None"
    using * by simp
  show "latestAt g os arch = Some l \<Longrightarrow> versionsAt g os arch ver = Some a \<Longrightarrow>
           \<not> GT (Asset_v a) (Asset_v l)"
    using * by simp
qed

lemma latest_is_greatest_New: "latest_is_greatest (NewReleaseManager ow re ad pd)"
  by (simp add: latest_is_greatest_def latestAt_def versionsAt_def NewReleaseManager_def)

lemma pushAsset_preserves:
  assumes inv: "latest_is_greatest g" and push: "pushAsset e os arch a0 g = (Returns r, g')"
  shows "latest_is_greatest g'"
proof (cases r)
  case (Some err)
  with push have "g' = g" by (simp add: pushAsset_error_unchanged)
  with inv show ?thesis by simp
next
  case None
  with push have "pushAsset e os arch a0 g = (Returns None, g')" by simp
  from pushAsset_effect [OF this] obtain asset where
    v: "Asset_v asset = Asset_v a0"
    and vs: "versionsAt g' os arch = (versionsAt g os arch)(Version_String (Asset_v a0) \<mapsto> asset)"
    and la: "latestAt g' os arch =
             Some (case latestAt g os arch of
                     None \<Rightarrow> asset
                   | Some current \<Rightarrow> if GT (Asset_v a0) (Asset_v current) then asset else current)"
    and other: "\<And>os' arch'. (os', arch') \<noteq> (os, arch) \<Longrightarrow>
              versionsAt g' os' arch' = versionsAt g os' arch' \<and>
              latestAt g' os' arch' = latestAt g os' arch'"
    by blast
  show ?thesis
  proof (rule latest_is_greatestI)
    fix os' arch'
    assume n: "latestAt g' os' arch' = None"
    with la have "(os', arch') \<noteq> (os, arch)" by auto
    with other n latest_is_greatestD(1) [OF inv]
    show "versionsAt g' os' arch' = Map.empty" by simp
  next
    fix os' arch' l
    assume l: "latestAt g' os' arch' = Some l"
    show "versionsAt g' os' arch' (Version_String (Asset_v l)) \<noteq> None"
    proof (cases "(os', arch') = (os, arch)")
      case False
      with other l latest_is_greatestD(2) [OF inv] show ?thesis by simp
    next
      case True
      show ?thesis
      proof (cases "latestAt g os arch")
        case None
        with la l True have "l = asset" by simp
        with True vs v show ?thesis by simp
      next
        case (Some current)
        show ?thesis
        proof (cases "GT (Asset_v a0) (Asset_v current)")
          case gt: True
          with la l True Some have "l = asset" by simp
          with True vs v show ?thesis by simp
        next
          case False
          with la l True Some have "l = current" by simp
          with latest_is_greatestD(2) [OF inv Some] True vs show ?thesis by simp
        qed
      qed
    qed
  next
    fix os' arch' l ver b
    assume l: "latestAt g' os' arch' = Some l" and b: "versionsAt g' os' arch' ver = Some b"
    show "\<not> GT (Asset_v b) (Asset_v l)"
    proof (cases "(os', arch') = (os, arch)")
      case False
      with other l b latest_is_greatestD(3) [OF inv] show ?thesis by simp
    next
      case True
      from b True vs have b': "b = asset \<or> versionsAt g os arch ver = Some b"
        by (auto split: if_splits)
      show ?thesis
      proof (cases "latestAt g os arch")
        case None
        with la l True have "l = asset" by simp
        moreover from None latest_is_greatestD(1) [OF inv] have "versionsAt g os arch = Map.empty"
          by simp
        ultimately show ?thesis using b' by (auto simp: GT_irrefl)
      next
        case (Some current)
        have old: "\<not> GT (Asset_v c) (Asset_v current)" if "versionsAt g os arch ver = Some c" for c
          using latest_is_greatestD(3) [OF inv Some that] .
        show ?thesis
        proof (cases "GT (Asset_v a0) (Asset_v current)")
          case gt: True
          with la l True Some have le: "l = asset" by simp
          from b' show ?thesis
          proof
            assume "b = asset"
            with le show ?thesis by (simp add: GT_irrefl)
          next
            assume o: "versionsAt g os arch ver = Some b"
            show ?thesis
            proof
              assume "GT (Asset_v b) (Asset_v l)"
              with le v have "GT (Asset_v b) (Asset_v a0)" by simp
              from GT_trans [OF this gt] old [OF o] show False by simp
            qed
          qed
        next
          case False
          with la l True Some have "l = current" by simp
          with b' False v old show ?thesis by auto
        qed
      qed
    qed
  qed
qed

lemma update_assets_preserves:
  "latest_is_greatest g \<Longrightarrow> update_assets e ver assets g = (Returns r, g') \<Longrightarrow>
   latest_is_greatest g'"
proof (induction assets arbitrary: g)
  case Nil
  then show ?case by simp
next
  case (Cons a rest)
  show ?case
  proof (cases "isUpdateAsset (Asset_Name a)")
    case False
    with Cons show ?thesis by simp
  next
    case True
    show ?thesis
    proof (cases "getAssetInfo (Asset_Name a)")
      case (Inl err)
      with Cons.prems True show ?thesis by (simp add: Let_def)
    next
      case (Inr info)
      obtain res g1 where p: "pushAsset e (OS info) (Arch info) (a\<lparr>Asset_v := ver\<rparr>) g = (res, g1)"
        by (cases "pushAsset e (OS info) (Arch info) (a\<lparr>Asset_v := ver\<rparr>) g")
      show ?thesis
      proof (cases res)
        case Panic
        with Cons.prems(2) True Inr p show ?thesis by (simp add: Let_def)
      next
        case (Returns r1)
        with p pushAsset_preserves [OF Cons.prems(1)] have i1: "latest_is_greatest g1" by simp
        show ?thesis
        proof (cases r1)
          case None
          with Cons.prems(2) True Inr p Returns have "update_assets e ver rest g1 = (Returns r, g')"
            by (simp add: Let_def)
          from Cons.IH [OF i1 this] show ?thesis .
        next
          case (Some err)
          with Cons.prems(2) True Inr p Returns have "g' = g1" by (simp add: Let_def)
          with i1 show ?thesis by simp
        qed
      qed
    qed
  qed
qed

lemma update_releases_preserves:
  "latest_is_greatest g \<Longrightarrow> update_releases e rs g = (Returns r, g') \<Longrightarrow>
   latest_is_greatest g'"
proof (induction rs arbitrary: g)
  case Nil
  then show ?case by simp
next
  case (Cons rel rs)
  obtain res g1 where u: "update_assets e (Release_Version rel) (Release_Assets rel) g = (res, g1)"
    by (cases "update_assets e (Release_Version rel) (Release_Assets rel) g")
  show ?case
  proof (cases res)
    case Panic
    with Cons.prems(2) u show ?thesis by simp
  next
    case (Returns r1)
    with u update_assets_preserves [OF Cons.prems(1)] have i1: "latest_is_greatest g1" by simp
    show ?thesis
    proof (cases r1)
      case None
      with Cons.prems(2) u Returns have "update_releases e rs g1 = (Returns r, g')" by simp
      from Cons.IH [OF i1 this] show ?thesis .
    next
      case (Some err)
      with Cons.prems(2) u Returns have "g' = g1" by simp
      with i1 show ?thesis by simp
    qed
  qed
qed

lemma UpdateAssetsMap_preserves:
  assumes "latest_is_greatest g" and "UpdateAssetsMap e g = Some (Returns r, g')"
  shows "latest_is_greatest g'"
proof (cases "getReleases e g")
  case None
  with assms(2) show ?thesis by (simp add: UpdateAssetsMap_def)
next
  case (Some out)
  show ?thesis
  proof (cases out)
    case Panic
    with Some assms(2) show ?thesis by (simp add: UpdateAssetsMap_def)
  next
    case (Returns x)
    show ?thesis
    proof (cases x)
      case (Inl err)
      with Some Returns assms show ?thesis by (simp add: UpdateAssetsMap_def)
    next
      case (Inr rs)
      with Some Returns assms(2) have "update_releases e rs g = (Returns r, g')"
        by (simp add: UpdateAssetsMap_def)
      from update_releases_preserves [OF assms(1) this] show ?thesis .
    qed
  qed
qed

section \<open>Properties of the release listing and of the refresh\<close>

lemma loop_error:
  "ListReleases e ow re page = Inl err \<Longrightarrow>
   getReleases_loop e ow re page acc = Some (Returns (Inl err))"
  by (subst getReleases_loop.simps) simp

lemma loop_empty:
  "ListReleases e ow re page = Inr [] \<Longrightarrow>
   getReleases_loop e ow re page acc = Some (Returns (Inr acc))"
  by (subst getReleases_loop.simps) simp

lemma loop_step:
  "ListReleases e ow re page = Inr rels \<Longrightarrow> rels \<noteq> [] \<Longrightarrow>
   page_releases e rels [] = Returns rs \<Longrightarrow>
   getReleases_loop e ow re page acc = getReleases_loop e ow re (page + 1) rs"
  by (subst getReleases_loop.simps) simp

lemma loop_panic:
  "ListReleases e ow re page = Inr rels \<Longrightarrow> rels \<noteq> [] \<Longrightarrow>
   page_releases e rels [] = Panic \<Longrightarrow>
   getReleases_loop e ow re page acc = Some Panic"
  by (subst getReleases_loop.simps) simp

lemma sample_pages:
  "ListReleases (sample_env [p1, p2]) ow re 1 = Inr p1"
  "ListReleases (sample_env [p1, p2]) ow re 2 = Inr p2"
  "ListReleases (sample_env [p1, p2]) ow re 3 = Inr []"
  "ListReleases (sample_env [p1]) ow re 1 = Inr p1"
  "ListReleases (sample_env [p1]) ow re 2 = Inr []"
  by (simp_all add: sample_env_def)

lemma sample_page_releases:
  "semver_Parse (sample_env pages) t = Inr ver \<Longrightarrow>
   page_releases (sample_env pages) [sample_release i t [(j, name, url)]] [] =
     Returns [\<lparr>Release_id = i, Release_URL = ''zip'', Release_Version = ver,
               Release_Assets = [listed_asset j name url]\<rparr>]"
  "semver_Parse (sample_env pages) t = Inr ver \<Longrightarrow>
   page_releases (sample_env pages) [sample_release i t [(j, name, url), (j', name', url')]] [] =
     Returns [\<lparr>Release_id = i, Release_URL = ''zip'', Release_Version = ver,
               Release_Assets = [listed_asset j name url, listed_asset j' name' url']\<rparr>]"
  by (simp_all add: sample_release_def listed_asset_def)

lemma sample_digest:
  "checksumForFile (sample_env pages) ''a/u100'' = Inr (''06'', [6])"
  "signatureForFile (sample_env pages) ''a/u100'' = Inr ''06''"
  "checksumForFile (sample_env pages) ''a/u100z'' = Inr (''07'', [7])"
  "signatureForFile (sample_env pages) ''a/u100z'' = Inr ''07''"
  by (simp_all add: checksumForFile_def signatureForFile_def sample_env_def hex_EncodeToString_def)

lemma sample_download:
  "downloadAsset (sample_env pages) ''u100'' ''a/'' = Inr ''a/u100''"
  "downloadAsset (sample_env pages) ''u100z'' ''a/'' = Inr ''a/u100z''"
  "downloadAsset (sample_env pages) ''broken'' ''a/'' = Inl (External ''download failed'')"
  by (simp_all add: sample_env_def)

lemma sample_version:
  "\<not> EQ (semver (Suc 0) 0 0) emptyVersion" "Version_String (semver (Suc 0) 0 0) = ''1.0.0''"
  "\<not> GT (semver (Suc 0) 0 0) (semver (Suc 0) 0 0)"
  by (simp_all add: EQ_def GT_def Compare_def semver_def emptyVersion_def Version_String_def decimal.simps)

lemma sample_classify:
  "isUpdateAsset ''update_linux_amd64''" "isUpdateAsset ''update_linux_amd64.zip''"
  "isUpdateAsset ''update_darwin_amd64''"
  "getAssetInfo ''update_linux_amd64'' = Inr \<lparr>OS = ''linux'', Arch = ''amd64''\<rparr>"
  "getAssetInfo ''update_linux_amd64.zip'' = Inr \<lparr>OS = ''linux'', Arch = ''amd64''\<rparr>"
  "getAssetInfo ''update_darwin_amd64'' = Inr \<lparr>OS = ''darwin'', Arch = ''amd64''\<rparr>"
  by (simp_all add: getAssetInfo_def isUpdateAsset_iff FindStringSubmatch_def re_alternatives_def
      re_accepts_def re_tail_def OS_Windows_def OS_Linux_def OS_Darwin_def
      Arch_X64_def Arch_X86_def Arch_ARM_def)

lemma sample_push_first:
  "pushAsset (sample_env pages) ''linux'' ''amd64''
     (listed_asset 10 ''update_linux_amd64'' ''u100''\<lparr>Asset_v := semver 1 0 0\<rparr>) sample_manager =
   (Returns None,
    sample_manager
      \<lparr>updateAssetsMap := Some [''linux'' \<mapsto> [''amd64'' \<mapsto>
         [''1.0.0'' \<mapsto> stored_asset 10 ''update_linux_amd64'' ''u100'' (semver 1 0 0) ''06'']]],
       latestAssetsMap := Some [''linux'' \<mapsto> [''amd64'' \<mapsto>
         stored_asset 10 ''update_linux_amd64'' ''u100'' (semver 1 0 0) ''06'']]\<rparr>)"
  by (simp add: pushAsset_def Let_def listed_asset_def stored_asset_def sample_manager_def
      NewReleaseManager_def sample_download sample_digest sample_version)

lemma getReleases_loop_last_page:
  assumes "ListReleases e ow re page = Inr rels" "rels \<noteq> []" "page_releases e rels [] = Returns rs"
    and "ListReleases e ow re (page + 1) = Inr []"
  shows "getReleases_loop e ow re page acc = Some (Returns (Inr rs))"
  by (simp add: loop_step [OF assms(1-3)] loop_empty [OF assms(4)])

lemma getReleases_loop_error_at:
  "(\<And>i. i < n \<Longrightarrow> \<exists>rels rs. ListReleases e ow re (page + int i) = Inr rels \<and> rels \<noteq> [] \<and>
        page_releases e rels [] = Returns rs) \<Longrightarrow>
   ListReleases e ow re (page + int n) = Inl err \<Longrightarrow>
   getReleases_loop e ow re page acc = Some (Returns (Inl err))"
proof (induction n arbitrary: page acc)
  case 0
  then show ?case by (simp add: loop_error)
next
  case (Suc n)
  from Suc.prems(1) [of 0] obtain rels rs where
    p: "ListReleases e ow re page = Inr rels" "rels \<noteq> []" "page_releases e rels [] = Returns rs"
    by auto
  have "getReleases_loop e ow re (page + 1) rs = Some (Returns (Inl err))"
  proof (rule Suc.IH)
    fix i assume "i < n"
    then have "Suc i < Suc n" by simp
    have "page + int (Suc i) = page + 1 + int i" by simp
    with Suc.prems(1) [OF \<open>Suc i < Suc n\<close>]
    show "\<exists>rels rs. ListReleases e ow re (page + 1 + int i) = Inr rels \<and> rels \<noteq> [] \<and>
        page_releases e rels [] = Returns rs"
      by metis
  next
    have "page + int (Suc n) = page + 1 + int n" by simp
    with Suc.prems(2) show "ListReleases e ow re (page + 1 + int n) = Inl err"
      by metis
  qed
  with loop_step [OF p] show ?case by simp
qed

lemma UpdateAssetsMap_getReleases_error:
  "getReleases e g = Some (Returns (Inl err)) \<Longrightarrow>
   UpdateAssetsMap e g = Some (Returns (Some err), g)"
  by (simp add: UpdateAssetsMap_def)

lemma listed_asset_Name: "Asset_Name (listed_asset i name url) = name"
  by (simp add: listed_asset_def)

lemma sample_push_twin:
  "pushAsset (sample_env pages) ''linux'' ''amd64''
     (listed_asset 11 ''update_linux_amd64.zip'' ''u100z''\<lparr>Asset_v := semver 1 0 0\<rparr>)
     (sample_manager
      \<lparr>updateAssetsMap := Some [''linux'' \<mapsto> [''amd64'' \<mapsto>
         [''1.0.0'' \<mapsto> stored_asset 10 ''update_linux_amd64'' ''u100'' (semver 1 0 0) ''06'']]],
       latestAssetsMap := Some [''linux'' \<mapsto> [''amd64'' \<mapsto>
         stored_asset 10 ''update_linux_amd64'' ''u100'' (semver 1 0 0) ''06'']]\<rparr>) =
   (Returns None,
    sample_manager
      \<lparr>updateAssetsMap := Some [''linux'' \<mapsto> [''amd64'' \<mapsto>
         [''1.0.0'' \<mapsto> stored_asset 11 ''update_linux_amd64.zip'' ''u100z'' (semver 1 0 0) ''07'']]],
       latestAssetsMap := Some [''linux'' \<mapsto> [''amd64'' \<mapsto>
         stored_asset 10 ''update_linux_amd64'' ''u100'' (semver 1 0 0) ''06'']]\<rparr>)"
  by (simp add: pushAsset_def Let_def listed_asset_def stored_asset_def sample_manager_def
      NewReleaseManager_def sample_download sample_digest sample_version)

lemma sample_push_broken:
  "pushAsset (sample_env pages) ''darwin'' ''amd64''
     (listed_asset 11 ''update_darwin_amd64'' ''broken''\<lparr>Asset_v := semver 1 0 0\<rparr>)
     (sample_manager\<lparr>updateAssetsMap := u, latestAssetsMap := l\<rparr>) =
   (Returns (Some (External ''download failed'')),
    sample_manager\<lparr>updateAssetsMap := u, latestAssetsMap := l\<rparr>)"
  by (simp add: pushAsset_def Let_def listed_asset_def sample_manager_def
      NewReleaseManager_def sample_download sample_version)

lemma sample_getReleases_one_page:
  assumes "semver_Parse (sample_env [[sample_release i t [(j, name, url), (j', name', url')]]]) t = Inr ver"
  shows "getReleases (sample_env [[sample_release i t [(j, name, url), (j', name', url')]]]) sample_manager =
     Some (Returns (Inr [\<lparr>Release_id = i, Release_URL = ''zip'', Release_Version = ver,
               Release_Assets = [listed_asset j name url, listed_asset j' name' url']\<rparr>]))"
  unfolding getReleases_def
  by (simp add: getReleases_loop_last_page [OF sample_pages(4) _ sample_page_releases(2) [OF assms]
        sample_pages(5) [unfolded one_add_one [symmetric]]]
      sort_Reverse_releasesByID_def)

lemma sample_twin_refresh:
  "UpdateAssetsMap (sample_env twin_feed) sample_manager =
     Some (Returns None,
           sample_manager
             \<lparr>updateAssetsMap := Some [''linux'' \<mapsto> [''amd64'' \<mapsto>
                [''1.0.0'' \<mapsto> stored_asset 11 ''update_linux_amd64.zip'' ''u100z'' (semver 1 0 0) ''07'']]],
              latestAssetsMap := Some [''linux'' \<mapsto> [''amd64'' \<mapsto>
                stored_asset 10 ''update_linux_amd64'' ''u100'' (semver 1 0 0) ''06'']]\<rparr>)"
proof -
  have p: "semver_Parse (sample_env twin_feed) ''1.0.0'' = Inr (semver 1 0 0)"
    by (simp add: sample_env_def sample_Parse_def)
  from sample_getReleases_one_page [OF p [unfolded twin_feed_def]]
  show ?thesis
    by (simp add: UpdateAssetsMap_def twin_feed_def sample_classify Let_def listed_asset_Name
        sample_push_first [unfolded One_nat_def] sample_push_twin [unfolded One_nat_def])
qed

text \<open>
  Claim C1. The feed \<open>two_page_feed\<close> serves release \<^verbatim>\<open>2.0.0\<close> on page 1 and release
  \<^verbatim>\<open>1.0.0\<close> on page 2, both with tags that parse. \<^verbatim>\<open>getReleases\<close> returns the release
  of page 2 alone: the slice is allocated anew for every page that is not empty, so what
  the earlier pages gave is dropped (\<open>getReleases_loop_last_page\<close> says so for any feed
  and any releases collected so far).
\<close>

theorem getReleases_last_page_only:
  "page_releases (sample_env two_page_feed) (two_page_feed ! 0) [] =
     Returns [\<lparr>Release_id = 2, Release_URL = ''zip'', Release_Version = semver 2 0 0,
               Release_Assets = [listed_asset 20 ''update_linux_amd64'' ''u200'']\<rparr>] \<and>
   page_releases (sample_env two_page_feed) (two_page_feed ! 1) [] =
     Returns [\<lparr>Release_id = 1, Release_URL = ''zip'', Release_Version = semver 1 0 0,
               Release_Assets = [listed_asset 10 ''update_linux_amd64'' ''u100'']\<rparr>] \<and>
   getReleases (sample_env two_page_feed) sample_manager =
     Some (Returns (Inr [\<lparr>Release_id = 1, Release_URL = ''zip'', Release_Version = semver 1 0 0,
               Release_Assets = [listed_asset 10 ''update_linux_amd64'' ''u100'']\<rparr>]))"
proof -
  let ?e = "sample_env [[sample_release 2 ''2.0.0'' [(20, ''update_linux_amd64'', ''u200'')]],
      [sample_release 1 ''1.0.0'' [(10, ''update_linux_amd64'', ''u100'')]]]"
  have p1: "semver_Parse ?e ''2.0.0'' = Inr (semver 2 0 0)"
    and p2: "semver_Parse ?e ''1.0.0'' = Inr (semver 1 0 0)"
    by (simp_all add: sample_env_def sample_Parse_def)
  note r1 = sample_page_releases(1) [OF p1, of 2 20 "''update_linux_amd64''" "''u200''"]
  note r2 = sample_page_releases(1) [OF p2, of 1 10 "''update_linux_amd64''" "''u100''"]
  have "getReleases_loop ?e (owner sample_manager) (repo sample_manager) 1 [] =
          getReleases_loop ?e (owner sample_manager) (repo sample_manager) 2
            [\<lparr>Release_id = 2, Release_URL = ''zip'', Release_Version = semver 2 0 0,
               Release_Assets = [listed_asset 20 ''update_linux_amd64'' ''u200'']\<rparr>]"
    using loop_step [OF sample_pages(1) _ r1, of "owner sample_manager" "repo sample_manager" "[]"]
    by simp
  also have "\<dots> = Some (Returns (Inr [\<lparr>Release_id = 1, Release_URL = ''zip'',
               Release_Version = semver 1 0 0,
               Release_Assets = [listed_asset 10 ''update_linux_amd64'' ''u100'']\<rparr>]))"
    using getReleases_loop_last_page [OF sample_pages(2) _ r2, of "owner sample_manager" "repo sample_manager"]
      sample_pages(3) [of _ _ "owner sample_manager" "repo sample_manager"]
    by simp
  finally have "getReleases ?e sample_manager =
     Some (Returns (Inr [\<lparr>Release_id = 1, Release_URL = ''zip'', Release_Version = semver 1 0 0,
               Release_Assets = [listed_asset 10 ''update_linux_amd64'' ''u100'']\<rparr>]))"
    by (simp add: getReleases_def sort_Reverse_releasesByID_def)
  with r1 r2 show ?thesis by (simp add: two_page_feed_def)
qed

text \<open>
  Claim C3, as amended. When the listing of the releases fails, at whatever page, after
  pages that were served, \<^verbatim>\<open>UpdateAssetsMap\<close> returns that error and the catalog is
  exactly as it was before the call. A \<^verbatim>\<open>pushAsset\<close> that returns an error leaves the
  catalog exactly as it found it; the assets that the same call pushed before the failing
  one stay in the catalog.
\<close>

theorem UpdateAssetsMap_error_state:
  "((\<forall>i<n. \<exists>rels rs. ListReleases e (owner g) (repo g) (1 + int i) = Inr rels \<and> rels \<noteq> [] \<and>
        page_releases e rels [] = Returns rs) \<and>
    ListReleases e (owner g) (repo g) (1 + int n) = Inl err \<longrightarrow>
      UpdateAssetsMap e g = Some (Returns (Some err), g)) \<and>
   (getReleases e g = Some (Returns (Inl err)) \<longrightarrow>
      UpdateAssetsMap e g = Some (Returns (Some err), g)) \<and>
   (pushAsset e os arch a g = (Returns (Some err), g') \<longrightarrow> g' = g)"
proof (intro conjI impI)
  assume a: "(\<forall>i<n. \<exists>rels rs. ListReleases e (owner g) (repo g) (1 + int i) = Inr rels \<and> rels \<noteq> [] \<and>
        page_releases e rels [] = Returns rs) \<and>
    ListReleases e (owner g) (repo g) (1 + int n) = Inl err"
  then have "getReleases_loop e (owner g) (repo g) 1 [] = Some (Returns (Inl err))"
    by (intro getReleases_loop_error_at [where n = n]) auto
  then have "getReleases e g = Some (Returns (Inl err))" by (simp add: getReleases_def)
  then show "UpdateAssetsMap e g = Some (Returns (Some err), g)"
    by (rule UpdateAssetsMap_getReleases_error)
next
  assume "getReleases e g = Some (Returns (Inl err))"
  then show "UpdateAssetsMap e g = Some (Returns (Some err), g)"
    by (rule UpdateAssetsMap_getReleases_error)
next
  assume "pushAsset e os arch a g = (Returns (Some err), g')"
  then show "g' = g" by (rule pushAsset_error_unchanged)
qed

theorem UpdateAssetsMap_error_state_witness:
  "ListReleases timeout_env ''owner'' ''repo'' 1 =
     Inr [sample_release 2 ''2.0.0'' [(20, ''update_linux_amd64'', ''u200'')]] \<and>
   ListReleases timeout_env ''owner'' ''repo'' 2 = Inl (External ''timeout'') \<and>
   UpdateAssetsMap timeout_env sample_manager =
     Some (Returns (Some (External ''timeout'')), sample_manager) \<and>
   pushAsset (sample_env []) ''darwin'' ''amd64''
     (listed_asset 11 ''update_darwin_amd64'' ''broken''\<lparr>Asset_v := semver 1 0 0\<rparr>) sample_manager =
     (Returns (Some (External ''download failed'')), sample_manager)"
proof -
  have o: "owner sample_manager = ''owner''" "repo sample_manager = ''repo''"
    by (simp_all add: sample_manager_def NewReleaseManager_def)
  have l1: "ListReleases timeout_env ''owner'' ''repo'' 1 =
     Inr [sample_release 2 ''2.0.0'' [(20, ''update_linux_amd64'', ''u200'')]]"
    and l2: "ListReleases timeout_env ''owner'' ''repo'' 2 = Inl (External ''timeout'')"
    by (simp_all add: timeout_env_def)
  have "semver_Parse timeout_env ''2.0.0'' = Inr (semver 2 0 0)"
    by (simp add: timeout_env_def sample_env_def sample_Parse_def)
  then have r: "page_releases timeout_env [sample_release 2 ''2.0.0'' [(20, ''update_linux_amd64'', ''u200'')]] [] =
     Returns [\<lparr>Release_id = 2, Release_URL = ''zip'', Release_Version = semver 2 0 0,
               Release_Assets = [listed_asset 20 ''update_linux_amd64'' ''u200'']\<rparr>]"
    by (simp add: sample_release_def listed_asset_def)
  have pre: "(\<forall>i<1. \<exists>rels rs. ListReleases timeout_env (owner sample_manager) (repo sample_manager)
                 (1 + int i) = Inr rels \<and> rels \<noteq> [] \<and> page_releases timeout_env rels [] = Returns rs) \<and>
    ListReleases timeout_env (owner sample_manager) (repo sample_manager) (1 + int 1) =
      Inl (External ''timeout'')"
    using l1 l2 r by (simp add: o)
  have b: "pushAsset (sample_env []) ''darwin'' ''amd64''
     (listed_asset 11 ''update_darwin_amd64'' ''broken''\<lparr>Asset_v := semver 1 0 0\<rparr>) sample_manager =
     (Returns (Some (External ''download failed'')), sample_manager)"
    using sample_push_broken [where pages = "[]" and u = "updateAssetsMap sample_manager"
        and l = "latestAssetsMap sample_manager"]
    by simp
  from UpdateAssetsMap_error_state [of 1 timeout_env sample_manager "External ''timeout''"] pre
  have "UpdateAssetsMap timeout_env sample_manager =
     Some (Returns (Some (External ''timeout'')), sample_manager)"
    by blast
  with l1 l2 b show ?thesis by simp
qed

text \<open>
  Claim C3 as stated covers a failing download as well. With \<open>failing_feed\<close> the first
  asset of the release is pushed and the download of the second one fails:
  \<^verbatim>\<open>UpdateAssetsMap\<close> returns the error, and the catalog, empty before the call, now holds
  the first asset in both indices.
\<close>

theorem UpdateAssetsMap_error_state_counterexample:
  "UpdateAssetsMap (sample_env failing_feed) sample_manager =
     Some (Returns (Some (CouldNotPushAsset (External ''download failed''))),
           sample_manager
             \<lparr>updateAssetsMap := Some [''linux'' \<mapsto> [''amd64'' \<mapsto>
                [''1.0.0'' \<mapsto> stored_asset 10 ''update_linux_amd64'' ''u100'' (semver 1 0 0) ''06'']]],
              latestAssetsMap := Some [''linux'' \<mapsto> [''amd64'' \<mapsto>
                stored_asset 10 ''update_linux_amd64'' ''u100'' (semver 1 0 0) ''06'']]\<rparr>) \<and>
   getProductUpdate sample_manager ''linux'' ''amd64'' = Inl NoSuchOS \<and>
   getProductUpdate
     (sample_manager
        \<lparr>updateAssetsMap := Some [''linux'' \<mapsto> [''amd64'' \<mapsto>
           [''1.0.0'' \<mapsto> stored_asset 10 ''update_linux_amd64'' ''u100'' (semver 1 0 0) ''06'']]],
         latestAssetsMap := Some [''linux'' \<mapsto> [''amd64'' \<mapsto>
           stored_asset 10 ''update_linux_amd64'' ''u100'' (semver 1 0 0) ''06'']]\<rparr>)
     ''linux'' ''amd64'' =
     Inr (stored_asset 10 ''update_linux_amd64'' ''u100'' (semver 1 0 0) ''06'')"
proof -
  have p: "semver_Parse (sample_env failing_feed) ''1.0.0'' = Inr (semver 1 0 0)"
    by (simp add: sample_env_def sample_Parse_def)
  from sample_getReleases_one_page [OF p [unfolded failing_feed_def]]
  have "UpdateAssetsMap (sample_env failing_feed) sample_manager =
     Some (Returns (Some (CouldNotPushAsset (External ''download failed''))),
           sample_manager
             \<lparr>updateAssetsMap := Some [''linux'' \<mapsto> [''amd64'' \<mapsto>
                [''1.0.0'' \<mapsto> stored_asset 10 ''update_linux_amd64'' ''u100'' (semver 1 0 0) ''06'']]],
              latestAssetsMap := Some [''linux'' \<mapsto> [''amd64'' \<mapsto>
                stored_asset 10 ''update_linux_amd64'' ''u100'' (semver 1 0 0) ''06'']]\<rparr>)"
    by (simp add: UpdateAssetsMap_def failing_feed_def sample_classify Let_def listed_asset_Name
        sample_push_first [unfolded One_nat_def] sample_push_broken [unfolded One_nat_def])
  then show ?thesis
    by (simp add: getProductUpdate_def sample_manager_def NewReleaseManager_def)
qed

text \<open>
  Claim C4, as amended. If no asset of a platform has a version greater than the
  platform's latest asset, and the latest version string is a key of the platform's
  versions (as in the catalog of a new manager), then the same holds after every
  successful \<^verbatim>\<open>UpdateAssetsMap\<close>: for every platform with a latest asset, every asset under
  \<^verbatim>\<open>updateAssetsMap[os][arch]\<close> has a version below or equal to the latest one's, and
  the latest version string is among the keys. A push at a version that is already
  present replaces the entry of \<^verbatim>\<open>updateAssetsMap\<close> only.
\<close>

theorem UpdateAssetsMap_latest_is_greatest:
  assumes "latest_is_greatest g" and "UpdateAssetsMap e g = Some (Returns None, g')"
  shows "latest_is_greatest g' \<and>
         (\<forall>os arch l. latestAt g' os arch = Some l \<longrightarrow>
            versionsAt g' os arch (Version_String (Asset_v l)) \<noteq> None \<and>
            (\<forall>ver a. versionsAt g' os arch ver = Some a \<longrightarrow> LTE (Asset_v a) (Asset_v l)))"
proof -
  from UpdateAssetsMap_preserves [OF assms] have i: "latest_is_greatest g'" .
  with latest_is_greatestD(2,3) [OF i] show ?thesis
    by (auto simp: LTE_iff_not_GT)
qed

theorem UpdateAssetsMap_latest_is_greatest_witness:
  "latest_is_greatest sample_manager \<and>
   UpdateAssetsMap (sample_env twin_feed) sample_manager =
     Some (Returns None,
           sample_manager
             \<lparr>updateAssetsMap := Some [''linux'' \<mapsto> [''amd64'' \<mapsto>
                [''1.0.0'' \<mapsto> stored_asset 11 ''update_linux_amd64.zip'' ''u100z'' (semver 1 0 0) ''07'']]],
              latestAssetsMap := Some [''linux'' \<mapsto> [''amd64'' \<mapsto>
                stored_asset 10 ''update_linux_amd64'' ''u100'' (semver 1 0 0) ''06'']]\<rparr>) \<and>
   latest_is_greatest
     (sample_manager
        \<lparr>updateAssetsMap := Some [''linux'' \<mapsto> [''amd64'' \<mapsto>
           [''1.0.0'' \<mapsto> stored_asset 11 ''update_linux_amd64.zip'' ''u100z'' (semver 1 0 0) ''07'']]],
         latestAssetsMap := Some [''linux'' \<mapsto> [''amd64'' \<mapsto>
           stored_asset 10 ''update_linux_amd64'' ''u100'' (semver 1 0 0) ''06'']]\<rparr>)"
proof -
  have i: "latest_is_greatest sample_manager"
    unfolding sample_manager_def by (rule latest_is_greatest_New)
  from UpdateAssetsMap_latest_is_greatest [OF i sample_twin_refresh] i sample_twin_refresh
  show ?thesis by simp
qed

text \<open>
  Claim C4 as stated makes the latest asset the very element of
  \<^verbatim>\<open>updateAssetsMap[os][arch]\<close>. With \<open>twin_feed\<close>, one release with the assets
  \<^verbatim>\<open>update_linux_amd64\<close> and \<^verbatim>\<open>update_linux_amd64.zip\<close>, the second push replaces the
  entry of version \<^verbatim>\<open>1.0.0\<close> in \<^verbatim>\<open>updateAssetsMap\<close> and, its version not being
  greater, leaves \<^verbatim>\<open>latestAssetsMap\<close> alone: after the successful call the latest asset
  is not among the assets of the platform.
\<close>

theorem UpdateAssetsMap_latest_is_greatest_counterexample:
  "UpdateAssetsMap (sample_env twin_feed) sample_manager =
     Some (Returns None,
           sample_manager
             \<lparr>updateAssetsMap := Some [''linux'' \<mapsto> [''amd64'' \<mapsto>
                [''1.0.0'' \<mapsto> stored_asset 11 ''update_linux_amd64.zip'' ''u100z'' (semver 1 0 0) ''07'']]],
              latestAssetsMap := Some [''linux'' \<mapsto> [''amd64'' \<mapsto>
                stored_asset 10 ''update_linux_amd64'' ''u100'' (semver 1 0 0) ''06'']]\<rparr>) \<and>
   latestAt
     (sample_manager
        \<lparr>updateAssetsMap := Some [''linux'' \<mapsto> [''amd64'' \<mapsto>
           [''1.0.0'' \<mapsto> stored_asset 11 ''update_linux_amd64.zip'' ''u100z'' (semver 1 0 0) ''07'']]],
         latestAssetsMap := Some [''linux'' \<mapsto> [''amd64'' \<mapsto>
           stored_asset 10 ''update_linux_amd64'' ''u100'' (semver 1 0 0) ''06'']]\<rparr>)
     ''linux'' ''amd64'' =
     Some (stored_asset 10 ''update_linux_amd64'' ''u100'' (semver 1 0 0) ''06'') \<and>
   versionsAt
     (sample_manager
        \<lparr>updateAssetsMap := Some [''linux'' \<mapsto> [''amd64'' \<mapsto>
           [''1.0.0'' \<mapsto> stored_asset 11 ''update_linux_amd64.zip'' ''u100z'' (semver 1 0 0) ''07'']]],
         latestAssetsMap := Some [''linux'' \<mapsto> [''amd64'' \<mapsto>
           stored_asset 10 ''update_linux_amd64'' ''u100'' (semver 1 0 0) ''06'']]\<rparr>)
     ''linux'' ''amd64'' =
     [''1.0.0'' \<mapsto> stored_asset 11 ''update_linux_amd64.zip'' ''u100z'' (semver 1 0 0) ''07''] \<and>
   stored_asset 10 ''update_linux_amd64'' ''u100'' (semver 1 0 0) ''06'' \<notin>
     ran [''1.0.0'' \<mapsto> stored_asset 11 ''update_linux_amd64.zip'' ''u100z'' (semver 1 0 0) ''07'']"
  using sample_twin_refresh
  by (simp add: latestAt_def versionsAt_def stored_asset_def)

end
